theory Spec2Isabelle
  imports Main "HOL-Library.Word"
begin

unbundle bit_operations_syntax

section \<open>Buffers and text\<close>

text \<open>
  A Node.js \<open>Buffer\<close> is a list of bytes.  Reads and writes outside the buffer raise
  \<open>RangeError\<close> in the runtime; the model returns it as a value.

  A JavaScript string is a list of UTF-16 code units, and its \<open>length\<close> is the length of
  that list.  \<open>buf.write\<close> encodes it in UTF-8, a surrogate pair as one four-byte
  character and a lone surrogate as U+FFFD; \<open>buf.toString\<close> decodes UTF-8 and puts U+FFFD
  for every malformed sequence, as the decoder of the Encoding Standard does.
\<close>

type_synonym byte = "8 word"
type_synonym buffer = "byte list"
type_synonym jsstring = "16 word list"

datatype error =
    NoConnection
  | NoPassword
  | NoCommand
  | UnknownCommand "jsstring option"
  | UnknownPacketType nat
  | ServerTimeout
  | ServerDisconnect
  | InvalidPassword
  | InvalidPacket
  | InvalidSequence int
  | PacketError string
  | PacketOverflow
  | MaxRetries
  | RangeError
  | TypeError
  | SocketError string

definition bind_err :: "error + 'a \<Rightarrow> ('a \<Rightarrow> error + 'b) \<Rightarrow> error + 'b" where
  "bind_err r f = (case r of Inl e \<Rightarrow> Inl e | Inr x \<Rightarrow> f x)"

definition alloc :: "nat \<Rightarrow> buffer" where
  "alloc n = replicate n 0"

definition slice_buf :: "nat \<Rightarrow> nat \<Rightarrow> buffer \<Rightarrow> buffer" where
  "slice_buf start stop buf = drop start (take stop buf)"

definition readUInt8 :: "buffer \<Rightarrow> nat \<Rightarrow> error + byte" where
  "readUInt8 buf off = (if off < length buf then Inr (buf ! off) else Inl RangeError)"

definition writeUInt8 :: "int \<Rightarrow> nat \<Rightarrow> buffer \<Rightarrow> error + buffer" where
  "writeUInt8 v off buf =
     (if v < 0 \<or> 255 < v \<or> length buf \<le> off then Inl RangeError
      else Inr (buf[off := word_of_int v]))"

text \<open>
  The 32-bit reads return JavaScript numbers in the signed range; the program only
  compares two of them, and two signed values are equal exactly when their 32-bit
  patterns are, so the model keeps the pattern.
\<close>

definition readInt32BE :: "buffer \<Rightarrow> nat \<Rightarrow> error + 32 word" where
  "readInt32BE buf off =
     (if off + 4 \<le> length buf
      then Inr (push_bit 24 (ucast (buf ! off)) OR push_bit 16 (ucast (buf ! (off + 1)))
                OR push_bit 8 (ucast (buf ! (off + 2))) OR ucast (buf ! (off + 3)))
      else Inl RangeError)"

definition readInt32LE :: "buffer \<Rightarrow> nat \<Rightarrow> error + 32 word" where
  "readInt32LE buf off =
     (if off + 4 \<le> length buf
      then Inr (push_bit 24 (ucast (buf ! (off + 3))) OR push_bit 16 (ucast (buf ! (off + 2)))
                OR push_bit 8 (ucast (buf ! (off + 1))) OR ucast (buf ! off))
      else Inl RangeError)"

definition writeInt32BE :: "32 word \<Rightarrow> nat \<Rightarrow> buffer \<Rightarrow> error + buffer" where
  "writeInt32BE w off buf =
     (if off + 4 \<le> length buf
      then Inr (buf[off := ucast (drop_bit 24 w), off + 1 := ucast (drop_bit 16 w),
                    off + 2 := ucast (drop_bit 8 w), off + 3 := ucast w])
      else Inl RangeError)"

text \<open>A text literal of the program.\<close>

definition lit :: "string \<Rightarrow> jsstring" where
  "lit s = map of_char s"

definition overwrite :: "buffer \<Rightarrow> nat \<Rightarrow> buffer \<Rightarrow> buffer" where
  "overwrite buf off bs = take off buf @ bs @ drop (off + length bs) buf"

text \<open>The UTF-8 bytes of a code point, and the characters of a string, each as its bytes.\<close>

definition utf8_bytes :: "nat \<Rightarrow> buffer" where
  "utf8_bytes cp =
     (if cp < 0x80 then [of_nat cp]
      else if cp < 0x800 then [of_nat (0xC0 + cp div 64), of_nat (0x80 + cp mod 64)]
      else if cp < 0x10000 then
        [of_nat (0xE0 + cp div 4096), of_nat (0x80 + cp div 64 mod 64), of_nat (0x80 + cp mod 64)]
      else
        [of_nat (0xF0 + cp div 262144), of_nat (0x80 + cp div 4096 mod 64),
         of_nat (0x80 + cp div 64 mod 64), of_nat (0x80 + cp mod 64)])"

definition high_surrogate :: "16 word \<Rightarrow> bool" where
  "high_surrogate u \<longleftrightarrow> 0xD800 \<le> u \<and> u \<le> 0xDBFF"

definition low_surrogate :: "16 word \<Rightarrow> bool" where
  "low_surrogate u \<longleftrightarrow> 0xDC00 \<le> u \<and> u \<le> 0xDFFF"

definition utf8_unit :: "16 word \<Rightarrow> buffer" where
  "utf8_unit u =
     (if high_surrogate u \<or> low_surrogate u then [0xEF, 0xBF, 0xBD] else utf8_bytes (unat u))"

fun utf8_chars :: "jsstring \<Rightarrow> buffer list" where
  "utf8_chars [] = []"
| "utf8_chars [u] = [utf8_unit u]"
| "utf8_chars (u # l # us) =
     (if high_surrogate u \<and> low_surrogate l
      then utf8_bytes (0x10000 + (unat u - 0xD800) * 1024 + (unat l - 0xDC00)) # utf8_chars us
      else utf8_unit u # utf8_chars (l # us))"

text \<open>\<open>buf.write(string, offset)\<close>: whole characters are written as long as they fit.\<close>

fun write_chars :: "buffer list \<Rightarrow> nat \<Rightarrow> buffer \<Rightarrow> buffer" where
  "write_chars [] off buf = buf"
| "write_chars (e # es) off buf =
     (if off + length e \<le> length buf then write_chars es (off + length e) (overwrite buf off e)
      else buf)"

definition write_string :: "jsstring \<Rightarrow> nat \<Rightarrow> buffer \<Rightarrow> buffer" where
  "write_string s off buf = write_chars (utf8_chars s) off buf"

text \<open>
  \<open>buf.toString()\<close>.  A lead byte gives a code point at once (\<open>Inl\<close>) or asks for
  continuation bytes: how many, the bits so far, and the range allowed for the next byte.
  A byte outside that range ends the sequence with U+FFFD and is read again as a lead
  byte; so does the end of the buffer inside a sequence.
\<close>

definition utf8_lead :: "byte \<Rightarrow> nat + nat \<times> nat \<times> byte \<times> byte" where
  "utf8_lead b =
     (if b \<le> 0x7F then Inl (unat b)
      else if 0xC2 \<le> b \<and> b \<le> 0xDF then Inr (1, unat (b AND 0x1F), 0x80, 0xBF)
      else if 0xE0 \<le> b \<and> b \<le> 0xEF then
        Inr (2, unat (b AND 0x0F), if b = 0xE0 then 0xA0 else 0x80, if b = 0xED then 0x9F else 0xBF)
      else if 0xF0 \<le> b \<and> b \<le> 0xF4 then
        Inr (3, unat (b AND 0x07), if b = 0xF0 then 0x90 else 0x80, if b = 0xF4 then 0x8F else 0xBF)
      else Inl 0xFFFD)"

fun utf8_decode :: "(nat \<times> nat \<times> byte \<times> byte) option \<Rightarrow> buffer \<Rightarrow> nat list" where
  "utf8_decode None [] = []"
| "utf8_decode (Some st) [] = [0xFFFD]"
| "utf8_decode None (b # bs) =
     (case utf8_lead b of
        Inl cp \<Rightarrow> cp # utf8_decode None bs
      | Inr st \<Rightarrow> utf8_decode (Some st) bs)"
| "utf8_decode (Some (needed, cp, lower, upper)) (b # bs) =
     (if b < lower \<or> upper < b then
        0xFFFD # (case utf8_lead b of
                    Inl cp' \<Rightarrow> cp' # utf8_decode None bs
                  | Inr st \<Rightarrow> utf8_decode (Some st) bs)
      else if needed = 1 then (cp * 64 + unat (b AND 0x3F)) # utf8_decode None bs
      else utf8_decode (Some (needed - 1, cp * 64 + unat (b AND 0x3F), 0x80, 0xBF)) bs)"

definition utf16_units :: "nat \<Rightarrow> jsstring" where
  "utf16_units cp =
     (if cp < 0x10000 then [of_nat cp]
      else [of_nat (0xD800 + (cp - 0x10000) div 1024), of_nat (0xDC00 + (cp - 0x10000) mod 1024)])"

definition toString :: "buffer \<Rightarrow> jsstring" where
  "toString buf = concat (map utf16_units (utf8_decode None buf))"

section \<open>CRC-32\<close>

text \<open>
  Modelled from the spec: the module \<open>./crc32\<close> that \<open>packet.ts\<close> imports is not
  among the sources.  Section 4.1 of the specification describes it as the standard IEEE
  CRC-32 of the payload, and section 2 as giving a little-endian result: \<open>crc32\<close> returns
  the four bytes of the checksum, least significant first.
\<close>

fun crc_shift :: "nat \<Rightarrow> 32 word \<Rightarrow> 32 word" where
  "crc_shift 0 c = c"
| "crc_shift (Suc n) c =
     crc_shift n (if bit c 0 then drop_bit 1 c XOR 0xEDB88320 else drop_bit 1 c)"

definition crc_update :: "32 word \<Rightarrow> byte \<Rightarrow> 32 word" where
  "crc_update c b = crc_shift 8 (c XOR ucast b)"

definition crc_value :: "buffer \<Rightarrow> 32 word" where
  "crc_value bs = NOT (foldl crc_update 0xFFFFFFFF bs)"

definition crc32 :: "buffer \<Rightarrow> buffer" where
  "crc32 bs =
     (let w = crc_value bs
      in [ucast w, ucast (drop_bit 8 w), ucast (drop_bit 16 w), ucast (drop_bit 24 w)])"

section \<open>Packets (\<open>lib/packet.ts\<close>)\<close>

datatype PacketType = Login | Command | Message

datatype PacketDirection = Request | Reply | Split

record IPacketAttributes =
  timestamp :: "int option"
  sent :: "nat option"
  sequence :: "int option"
  total_attr :: "nat option"
  index :: "nat option"
  data :: "jsstring option"
  password :: "jsstring option"
  command :: "jsstring option"
  message :: "jsstring option"
  login :: "bool option"
  part :: "buffer option"
  error :: "error option"

record Packet =
  ptype :: PacketType
  direction :: PacketDirection
  attributes :: IPacketAttributes

definition no_attributes :: IPacketAttributes where
  "no_attributes =
     \<lparr>timestamp = None, sent = None, sequence = None, total_attr = None, index = None,
      data = None, password = None, command = None, message = None, login = None,
      part = None, error = None\<rparr>"

text \<open>\<open>clear()\<close> empties the attribute bag and stamps the time \<open>now\<close>.\<close>

definition clear :: "int \<Rightarrow> Packet \<Rightarrow> Packet" where
  "clear now p =
     p\<lparr>attributes := no_attributes
          \<lparr>timestamp := Some now,
           sent := (if direction p = Request then Some 0 else None)\<rparr>\<rparr>"

text \<open>
  The constructor calls \<open>clear()\<close> and then assigns a copy of its argument to the
  attribute bag, so the packet holds exactly the attributes it was given: the time stamp
  and the zero send count of \<open>clear()\<close> do not survive.
\<close>

definition new_Packet :: "PacketType \<Rightarrow> PacketDirection \<Rightarrow> IPacketAttributes \<Rightarrow> Packet" where
  "new_Packet t d attrs = \<lparr>ptype = t, direction = d, attributes = attrs\<rparr>"

definition type_number :: "PacketType \<Rightarrow> int" where
  "type_number t = (case t of Login \<Rightarrow> 0 | Command \<Rightarrow> 1 | Message \<Rightarrow> 2)"

definition sent_of :: "Packet \<Rightarrow> nat" where
  "sent_of p = (case sent (attributes p) of Some n \<Rightarrow> n | None \<Rightarrow> 0)"

definition sequence_of :: "Packet \<Rightarrow> int" where
  "sequence_of p = (case sequence (attributes p) of Some n \<Rightarrow> n | None \<Rightarrow> - 1)"

definition set_sequence :: "int \<Rightarrow> Packet \<Rightarrow> error + Packet" where
  "set_sequence n p =
     (if n < 0 \<or> 255 < n then Inl (InvalidSequence n)
      else Inr (p\<lparr>attributes := (attributes p)\<lparr>sequence := Some n\<rparr>\<rparr>))"

text \<open>
  \<open>Packet.FROM\<close>.  The type byte is compared with the three members of \<open>PacketType\<close>;
  every other value ends in \<open>UnknownPacketType\<close>.
\<close>

definition FROM :: "buffer \<Rightarrow> error + Packet" where
  "FROM buffer =
     (if length buffer < 9 then Inl (PacketError ''Packet must contain at least 9 bytes'')
      else if toString (slice_buf 0 2 buffer) \<noteq> lit ''BE'' then Inl (PacketError ''Invalid header text'')
      else
        let payload = slice_buf 6 (length buffer) buffer in
        bind_err (readInt32BE buffer 2) (\<lambda>checksum.
        bind_err (readInt32LE (crc32 payload) 0) (\<lambda>crc.
        if checksum \<noteq> crc then Inl (PacketError ''Packet checksum verification failed.'')
        else
          bind_err (readUInt8 payload 0) (\<lambda>flag.
          if flag \<noteq> 0xFF then Inl (PacketError ''Packet missing 0xFF flag after checksum.'')
          else
            bind_err (readUInt8 payload 1) (\<lambda>type.
            if type = 0 then
              bind_err (readUInt8 payload 2) (\<lambda>b.
              Inr (new_Packet Login Reply (no_attributes\<lparr>login := Some (b = 1)\<rparr>)))
            else if type = 1 then
              bind_err (readUInt8 payload 2) (\<lambda>s.
              bind_err (if 4 < length payload then readUInt8 payload 3 else Inr 1) (\<lambda>m.
              if 4 < length payload \<and> m = 0 then
                bind_err (readUInt8 payload 4) (\<lambda>t.
                bind_err (readUInt8 payload 5) (\<lambda>i.
                Inr (new_Packet Command Split
                      (no_attributes\<lparr>sequence := Some (uint s), total_attr := Some (unat t),
                         index := Some (unat i),
                         part := Some (slice_buf 6 (length payload) payload)\<rparr>))))
              else
                Inr (new_Packet Command Reply
                      (no_attributes\<lparr>sequence := Some (uint s),
                         data := Some (toString (slice_buf 3 (length payload) payload))\<rparr>))))
            else if type = 2 then
              bind_err (readUInt8 payload 2) (\<lambda>s.
              Inr (new_Packet Message Reply
                    (no_attributes\<lparr>sequence := Some (uint s),
                       message := Some (toString (slice_buf 3 (length payload) payload))\<rparr>)))
            else Inl (UnknownPacketType (unat type)))))))"

text \<open>
  \<open>serialize()\<close> returns the datagram and the packet with its send count raised.  The
  packet type is a member of \<open>PacketType\<close>, so \<open>valid\<close> holds and the \<open>default\<close> branch
  of the \<open>switch\<close> is not reached.  Writing a sequence outside 0..255 raises in
  \<open>writeUInt8\<close>.
\<close>

definition payload_of :: "Packet \<Rightarrow> error + buffer" where
  "payload_of p =
     (case ptype p of
        Login \<Rightarrow>
          (case password (attributes p) of
             None \<Rightarrow> Inl NoPassword
           | Some pw \<Rightarrow>
               bind_err (writeUInt8 0xFF 0 (alloc (length pw + 2))) (\<lambda>b0.
               bind_err (writeUInt8 (type_number (ptype p)) 1 b0) (\<lambda>b1.
               Inr (write_string pw 2 b1))))
      | Command \<Rightarrow>
          (case command (attributes p) of
             None \<Rightarrow> Inl NoCommand
           | Some cmd \<Rightarrow>
               bind_err (writeUInt8 0xFF 0 (alloc (length cmd + 3))) (\<lambda>b0.
               bind_err (writeUInt8 (type_number (ptype p)) 1 b0) (\<lambda>b1.
               bind_err (writeUInt8 (sequence_of p) 2 b1) (\<lambda>b2.
               Inr (write_string cmd 3 b2)))))
      | Message \<Rightarrow>
          bind_err (writeUInt8 0xFF 0 (alloc 3)) (\<lambda>b0.
          bind_err (writeUInt8 (type_number (ptype p)) 1 b0) (\<lambda>b1.
          writeUInt8 (sequence_of p) 2 b1)))"

definition serialize :: "Packet \<Rightarrow> error + buffer \<times> Packet" where
  "serialize p =
     bind_err (payload_of p) (\<lambda>payload.
     bind_err (readInt32LE (crc32 payload) 0) (\<lambda>crc.
     bind_err (writeInt32BE crc 2 [0x42, 0x45, 0x00, 0x00, 0x00, 0x00]) (\<lambda>header.
     Inr (header @ payload,
          p\<lparr>attributes := (attributes p)
               \<lparr>sent := Some (case sent (attributes p) of
                               None \<Rightarrow> 1 | Some n \<Rightarrow> if n = 0 then 1 else n + 1)\<rparr>\<rparr>))))"


text \<open>
  The bytes \<open>serialize()\<close> puts on the wire for a payload: \<open>BE\<close>, the checksum word in
  big-endian order, the payload.
\<close>

definition frame :: "buffer \<Rightarrow> buffer" where
  "frame payload = [0x42, 0x45] @ rev (crc32 payload) @ payload"

definition ascii :: "jsstring \<Rightarrow> bool" where
  "ascii s = list_all (\<lambda>u. u < 0x80) s"

definition bytes_of :: "jsstring \<Rightarrow> buffer" where
  "bytes_of s = map ucast s"

section \<open>Connections (\<open>lib/connection.ts\<close> and \<open>lib/socket.ts\<close>)\<close>

text \<open>
  A JavaScript array: its \<open>length\<close> and its properties.  Reading a missing property
  gives \<open>undefined\<close> (\<open>None\<close>); writing at an index from \<open>length\<close> on extends the
  array; a negative key is an ordinary property that \<open>for ... of\<close> does not visit.
\<close>

record 'a js_array =
  len :: nat
  item :: "int \<Rightarrow> 'a option"

definition new_Array :: "nat \<Rightarrow> 'a js_array" where
  "new_Array n = \<lparr>len = n, item = (\<lambda>_. None)\<rparr>"

definition js_get :: "'a js_array \<Rightarrow> int \<Rightarrow> 'a option" where
  "js_get a i = item a i"

definition js_put :: "'a js_array \<Rightarrow> int \<Rightarrow> 'a option \<Rightarrow> 'a js_array" where
  "js_put a i v =
     \<lparr>len = (if 0 \<le> i then max (len a) (nat i + 1) else len a), item = (item a)(i := v)\<rparr>"

definition js_values :: "'a js_array \<Rightarrow> 'a option list" where
  "js_values a = map (\<lambda>i. item a (int i)) [0..<len a]"

text \<open>The fragment vectors are indexed by the byte \<open>index\<close> of a fragment.\<close>

definition list_put :: "'a option list \<Rightarrow> nat \<Rightarrow> 'a \<Rightarrow> 'a option list" where
  "list_put xs i v =
     (if i < length xs then xs[i := Some v]
      else xs @ replicate (i - length xs) None @ [Some v])"

record IOptions =
  reconnect :: bool
  reconnectTimeout :: int
  keepAlive :: bool
  keepAliveInterval :: int
  timeout :: bool
  timeoutInterval :: int
  serverTimeout :: int
  packetTimeout :: int
  packetTimeoutThresholded :: int

definition default_options :: IOptions where
  "default_options =
     \<lparr>reconnect = True, reconnectTimeout = 500, keepAlive = True, keepAliveInterval = 15000,
      timeout = True, timeoutInterval = 1000, serverTimeout = 30000, packetTimeout = 1000,
      packetTimeoutThresholded = 5\<rparr>"

text \<open>
  A pending request: the packet sent, the bytes transmitted and the two callbacks of its
  promise.  Calling a callback is recorded as an event.
\<close>

record IPacketPromise =
  bytes :: nat
  packet :: Packet

record IPacketResponse =
  r_command :: "jsstring option"
  r_data :: "jsstring option"
  r_connected :: "bool option"
  r_bytes :: nat
  r_sent :: Packet
  r_received :: "Packet option"

text \<open>
  What a connection does to the outside: completing a promise (\<open>Reject\<close> with \<open>None\<close> is
  \<open>reject(undefined)\<close>), emitting an event, handing a datagram to the UDP socket, arming
  the reconnect timer.
\<close>

datatype event =
    Resolve IPacketPromise IPacketResponse
  | Reject IPacketPromise "error option"
  | Emit_connected
  | Emit_disconnected error
  | Emit_command "jsstring option" bool Packet
  | Emit_message "jsstring option" Packet
  | Emit_error error
  | Transmit Packet buffer
  | Reconnect_scheduled

text \<open>
  The state of one connection, with the \<open>listening\<close> flag of its socket.  \<open>info.connected\<close>
  is read in boolean contexts only, so \<open>undefined\<close> is kept as \<open>False\<close>.  The two timers are
  kept as "armed or not".
\<close>

record Connection =
  listening :: bool
  options :: IOptions
  keepAlive_timer :: bool
  timeout_timer :: bool
  packets :: "IPacketPromise js_array"
  multipart :: "Packet option list list"
  info_password :: jsstring
  info_sent :: nat
  info_received :: nat
  info_sequence :: int
  info_connected :: bool
  lastPacket :: "Packet option"
  events :: "event list"

definition new_Connection :: "bool \<Rightarrow> IOptions \<Rightarrow> jsstring \<Rightarrow> Connection" where
  "new_Connection l opts pw =
     \<lparr>listening = l, options = opts, keepAlive_timer = False, timeout_timer = False,
      packets = new_Array 255, multipart = replicate 255 [],
      info_password = pw, info_sent = 0, info_received = 0, info_sequence = - 1,
      info_connected = False, lastPacket = None, events = []\<rparr>"

definition emit :: "event \<Rightarrow> Connection \<Rightarrow> Connection" where
  "emit e c = c\<lparr>events := events c @ [e]\<rparr>"

text \<open>\<open>store\<close>: a Login entry goes to slot 0, a Command entry to the slot of its sequence.\<close>

definition store :: "IPacketPromise \<Rightarrow> Connection \<Rightarrow> error + Connection" where
  "store st c =
     (case ptype (packet st) of
        Login \<Rightarrow>
          if js_get (packets c) 0 \<noteq> None then Inl PacketOverflow
          else Inr (c\<lparr>packets := js_put (packets c) 0 (Some st)\<rparr>)
      | Command \<Rightarrow>
          if js_get (packets c) (sequence_of (packet st)) \<noteq> None then Inl PacketOverflow
          else Inr (c\<lparr>packets := js_put (packets c) (sequence_of (packet st)) (Some st)\<rparr>)
      | Message \<Rightarrow> Inl (UnknownPacketType 2))"

text \<open>The getter \<open>sequence\<close> of a connection.\<close>

definition sequence_get :: "Connection \<Rightarrow> int \<times> Connection" where
  "sequence_get c =
     (let s = (if 255 \<le> info_sequence c then - 1 else info_sequence c)
      in (s + 1, c\<lparr>info_sequence := s + 1\<rparr>))"

text \<open>
  \<open>Socket.send\<close> for this connection.  The result is \<open>Inl\<close> when the promise is rejected
  at once, and otherwise the packet as serializing has left it.  The datagram socket is
  the environment: it takes the datagram and reports all of its bytes as sent.
\<close>

definition send :: "Packet \<Rightarrow> bool \<Rightarrow> Connection \<Rightarrow> (error + Packet) \<times> Connection" where
  "send pk res c =
     (let (r, c1) =
        (if ptype pk = Command \<and> sequence_of pk < 0
         then (let (n, c') = sequence_get c in (set_sequence n pk, c'))
         else (Inr pk, c))
      in case r of
           Inl e \<Rightarrow> (Inl e, c1)
         | Inr pk1 \<Rightarrow>
             (case serialize pk1 of
                Inl e \<Rightarrow> (Inl e, c1)
              | Inr (buffer, pk2) \<Rightarrow>
                  (let c2 = emit (Transmit pk2 buffer) c1
                   in if res
                      then (case store \<lparr>bytes = length buffer, packet = pk2\<rparr> c2 of
                              Inl e \<Rightarrow> (Inl e, c2)
                            | Inr c3 \<Rightarrow> (Inr pk2, c3))
                      else (Inr pk2, c2))))"

definition cleanup :: "error \<Rightarrow> Connection \<Rightarrow> Connection" where
  "cleanup err c =
     c\<lparr>timeout_timer := False, keepAlive_timer := False,
       events := events c @ [Reject st (Some err). Some st \<leftarrow> js_values (packets c)],
       info_sent := 0, info_received := 0, info_sequence := - 1, info_connected := False,
       packets := new_Array 255, multipart := replicate 255 []\<rparr>"

definition disconnect :: "error \<Rightarrow> Connection \<Rightarrow> Connection" where
  "disconnect reason c =
     (let c1 = emit (Emit_disconnected reason) (cleanup reason c)
      in if reconnect (options c1) \<and> reason = ServerTimeout then emit Reconnect_scheduled c1
         else c1)"

definition resolve :: "Packet \<Rightarrow> Connection \<Rightarrow> bool \<times> Connection" where
  "resolve pk c =
     (case ptype pk of
        Login \<Rightarrow>
          (let store = js_get (packets c) 0;
               c1 = c\<lparr>info_connected := (login (attributes pk) = Some True)\<rparr>;
               (resolved, c2) =
                 (case store of
                    None \<Rightarrow> (False, c1)
                  | Some st \<Rightarrow>
                      (True,
                       (emit (if info_connected c1
                              then Resolve st \<lparr>r_command = None, r_data = None,
                                     r_connected = Some True, r_bytes = bytes st,
                                     r_sent = packet st, r_received = Some pk\<rparr>
                              else Reject st (Some InvalidPassword)) c1)
                       \<lparr>packets := js_put (packets c1) 0 None\<rparr>))
           in if info_connected c2 then (resolved, emit Emit_connected c2)
              else (resolved, disconnect InvalidPassword c2))
      | Command \<Rightarrow>
          (let store = js_get (packets c) (sequence_of pk);
               (resolved, c1) =
                 (case store of
                    None \<Rightarrow> (False, c)
                  | Some st \<Rightarrow>
                      (True,
                       (emit (if error (attributes pk) \<noteq> None
                              then Reject st (error (attributes (packet st)))
                              else if data (attributes pk) = Some (lit ''Unknown command'')
                              then Reject st (Some (UnknownCommand (command (attributes (packet st)))))
                              else Resolve st \<lparr>r_command = command (attributes (packet st)),
                                     r_data = data (attributes pk), r_connected = None,
                                     r_bytes = bytes st, r_sent = packet st,
                                     r_received = Some pk\<rparr>) c)
                       \<lparr>packets := js_put (packets c) (sequence_of pk) None\<rparr>))
           in case data (attributes pk) of
                None \<Rightarrow> (resolved, c1)
              | Some d \<Rightarrow>
                  if d = [] then (resolved, c1)
                  else (resolved, emit (Emit_command (Some d) resolved pk) c1))
      | Message \<Rightarrow>
          (let c1 = emit (Emit_message (message (attributes pk)) pk) c
           in case send (new_Packet Message Reply
                          (no_attributes\<lparr>sequence := Some (sequence_of pk)\<rparr>)) False c1 of
                (Inl e, c2) \<Rightarrow> (False, emit (Emit_error e) c2)
              | (Inr _, c2) \<Rightarrow> (False, c2)))"

text \<open>
  The loop of \<open>recieve\<close> over a fragment vector: the parts are appended until an empty
  slot ends the loop with \<open>valid = false\<close> (\<open>Inr None\<close>); a packet without \<open>part\<close>
  makes \<open>Buffer.concat\<close> raise.
\<close>

fun concat_parts :: "Packet option list \<Rightarrow> buffer \<Rightarrow> error + buffer option" where
  "concat_parts [] buff = Inr (Some buff)"
| "concat_parts (None # ps) buff = Inr None"
| "concat_parts (Some p # ps) buff =
     (case part (attributes p) of
        None \<Rightarrow> Inl TypeError
      | Some b \<Rightarrow> concat_parts ps (buff @ b))"

definition error_reply :: "error \<Rightarrow> int \<Rightarrow> Packet" where
  "error_reply e s = new_Packet Command Reply (no_attributes\<lparr>error := Some e, sequence := Some s\<rparr>)"

text \<open>
  \<open>recieve\<close>, the entry point for a decoded packet.  \<open>this.multipart\<close> has 255 fragment
  vectors; reading \<open>length\<close> of a missing one raises \<open>TypeError\<close>, which rejects the
  promise that the \<open>async\<close> method returns.
\<close>

definition recieve :: "Packet \<Rightarrow> Connection \<Rightarrow> (error + bool) \<times> Connection" where
  "recieve pk c0 =
     (let c = c0\<lparr>lastPacket := Some pk\<rparr>; s = sequence_of pk
      in if direction pk = Split then
           if s < 0 \<or> int (length (multipart c)) \<le> s then (Inl TypeError, c)
           else
             let mp0 = multipart c ! nat s;
                 mp1 = (if length mp0 = 0
                        then (case total_attr (attributes pk) of
                                None \<Rightarrow> [None] | Some t \<Rightarrow> replicate t None)
                        else mp0);
                 mp2 = (case index (attributes pk) of
                          None \<Rightarrow> mp1 | Some i \<Rightarrow> list_put mp1 i pk);
                 c1 = c\<lparr>multipart := (multipart c)[nat s := mp2]\<rparr>
             in if (case (index (attributes pk), total_attr (attributes pk)) of
                      (Some i, Some t) \<Rightarrow> i + 1 = t | _ \<Rightarrow> False)
                then
                  (case concat_parts mp2 [] of
                     Inl err \<Rightarrow> (case resolve (error_reply err s) c1 of (r, c2) \<Rightarrow> (Inr r, c2))
                   | Inr (Some buff) \<Rightarrow>
                       (case resolve (new_Packet Command Reply
                                       (no_attributes\<lparr>data := Some (toString buff),
                                          sequence := Some s\<rparr>))
                               (c1\<lparr>multipart := (multipart c1)[nat s := []]\<rparr>) of
                          (r, c2) \<Rightarrow> (Inr r, c2))
                   | Inr None \<Rightarrow>
                       (case js_get (packets c1) s of
                          None \<Rightarrow> (Inr False, c1)
                        | Some resend \<Rightarrow>
                            if 5 \<le> sent_of (packet resend) then
                              (case send (packet resend) False c1 of
                                 (Inl err, c2) \<Rightarrow>
                                   (case resolve (error_reply err s) c2 of (r, c3) \<Rightarrow> (Inr r, c3))
                               | (Inr pk', c2) \<Rightarrow>
                                   (Inr False,
                                    c2\<lparr>packets := js_put (packets c2) s
                                                      (Some (resend\<lparr>packet := pk'\<rparr>))\<rparr>))
                            else
                              (case resolve (error_reply MaxRetries s) c1 of
                                 (r, c2) \<Rightarrow> (Inr r, c2))))
                else (Inr False, c1)
         else (case resolve pk c of (r, c1) \<Rightarrow> (Inr r, c1)))"

text \<open>\<open>Socket.receive\<close> for a datagram from the address of this connection.\<close>

definition receive :: "buffer \<Rightarrow> Connection \<Rightarrow> Connection" where
  "receive buffer c =
     (case FROM buffer of
        Inl e \<Rightarrow> emit (Emit_error e) c
      | Inr pk \<Rightarrow> snd (recieve pk c))"

definition setup_timers :: "Connection \<Rightarrow> Connection" where
  "setup_timers c =
     c\<lparr>keepAlive_timer := (keepAlive (options c) \<or> keepAlive_timer c),
       timeout_timer := (timeout (options c) \<or> timeout_timer c)\<rparr>"

definition connect :: "Connection \<Rightarrow> (error + Packet) \<times> Connection" where
  "connect c =
     (if \<not> listening c then (Inl NoConnection, c)
      else
        let c1 = (if info_connected c then disconnect ServerDisconnect c else c);
            c2 = setup_timers c1
        in send (new_Packet Login Request (no_attributes\<lparr>password := Some (info_password c2)\<rparr>))
             True c2)"

definition command_send :: "jsstring \<Rightarrow> bool \<Rightarrow> Connection \<Rightarrow> (error + Packet) \<times> Connection" where
  "command_send cmd res c =
     (if \<not> listening c \<or> \<not> info_connected c then (Inl NoConnection, c)
      else send (new_Packet Command Request (no_attributes\<lparr>command := Some cmd\<rparr>)) res c)"

definition kill :: "error \<Rightarrow> Connection \<Rightarrow> Connection" where
  "kill reason c = disconnect reason (emit (Emit_error reason) c)"

text \<open>
  The callback of the keep-alive timer.  \<open>command\<close> raises \<open>NoConnection\<close> before it
  makes a promise, so that error escapes the \<open>catch\<close> handler and nothing is emitted.
\<close>

definition keepAlive_tick :: "Connection \<Rightarrow> Connection" where
  "keepAlive_tick c =
     (if info_connected c \<and> listening c
      then (case command_send [] True c of
              (Inl e, c1) \<Rightarrow> emit (Emit_error e) c1
            | (Inr _, c1) \<Rightarrow> c1)
      else c)"

text \<open>
  The callback of the timeout timer at clock value \<open>time\<close>.  The server check comes
  first.  Then \<open>for (const p of this.packets)\<close> walks the slots of the array that
  \<open>this.packets\<close> names when the loop starts.  \<open>resolve\<close> on a Login entry ends in
  \<open>cleanup\<close>, which makes \<open>this.packets\<close> a new array; the loop continues over the
  old one, kept in \<open>old\<close>.  A rejected \<open>await this.send\<close> leaves the loop through
  \<open>catch\<close>.
\<close>

definition server_timed_out :: "int \<Rightarrow> Connection \<Rightarrow> bool" where
  "server_timed_out time c =
     (case lastPacket c of
        None \<Rightarrow> False
      | Some lp \<Rightarrow>
          (case timestamp (attributes lp) of
             None \<Rightarrow> False
           | Some ts \<Rightarrow> ts \<noteq> 0 \<and> serverTimeout (options c) \<le> time - ts))"

definition due :: "int \<Rightarrow> Connection \<Rightarrow> Packet \<Rightarrow> bool" where
  "due time c pk =
     (case timestamp (attributes pk) of
        None \<Rightarrow> False
      | Some ts \<Rightarrow> ts \<noteq> 0 \<and> int (sent_of pk) * packetTimeout (options c) \<le> time - ts)"

fun check_packets ::
  "int \<Rightarrow> nat list \<Rightarrow> IPacketPromise js_array option \<Rightarrow> Connection \<Rightarrow> Connection" where
  "check_packets time [] old c = c"
| "check_packets time (i # rest) old c =
     (case js_get (case old of None \<Rightarrow> packets c | Some a \<Rightarrow> a) (int i) of
        None \<Rightarrow> check_packets time rest old c
      | Some p \<Rightarrow>
          if due time c (packet p) then
            (case send (packet p) False c of
               (Inl e, c1) \<Rightarrow> emit (Emit_error e) c1
             | (Inr pk', c1) \<Rightarrow>
                 (case old of
                    None \<Rightarrow>
                      check_packets time rest None
                        (c1\<lparr>packets := js_put (packets c1) (int i) (Some (p\<lparr>packet := pk'\<rparr>))\<rparr>)
                  | Some a \<Rightarrow>
                      check_packets time rest
                        (Some (js_put a (int i) (Some (p\<lparr>packet := pk'\<rparr>)))) c1))
          else if packetTimeoutThresholded (options c) \<le> int (sent_of (packet p)) then
            (let reply = new_Packet (ptype (packet p)) Reply
                           (no_attributes\<lparr>error := Some ServerTimeout,
                              sequence := Some (sequence_of (packet p))\<rparr>);
                 c1 = snd (resolve reply c)
             in if ptype (packet p) = Login
                then check_packets time rest
                       (Some (case old of
                                None \<Rightarrow> (if js_get (packets c) 0 \<noteq> None
                                          then js_put (packets c) 0 None else packets c)
                              | Some a \<Rightarrow> a)) c1
                else check_packets time rest old c1)
          else check_packets time rest old c)"

definition tick :: "int \<Rightarrow> Connection \<Rightarrow> Connection" where
  "tick time c =
     (if server_timed_out time c then disconnect ServerTimeout c
      else check_packets time [0..<len (packets c)] None c)"

text \<open>
  The steps of a connection: the socket starts listening, the application calls
  \<open>connect\<close>, \<open>command\<close> or \<open>kill\<close>, a datagram arrives, a timer fires.  The reconnect
  timer calls \<open>connect\<close>.  Timers are not always cleared before they are replaced, so
  their callbacks are steps in every state.
\<close>

datatype step =
    Listen
  | Connect
  | Cmd jsstring bool
  | Receive buffer
  | Tick int
  | KeepAlive
  | Kill error

fun run :: "step \<Rightarrow> Connection \<Rightarrow> Connection" where
  "run Listen c = c\<lparr>listening := True\<rparr>"
| "run Connect c = snd (connect c)"
| "run (Cmd cmd res) c = snd (command_send cmd res c)"
| "run (Receive buffer) c = receive buffer c"
| "run (Tick time) c = tick time c"
| "run KeepAlive c = keepAlive_tick c"
| "run (Kill reason) c = kill reason c"

inductive reachable :: "IOptions \<Rightarrow> jsstring \<Rightarrow> Connection \<Rightarrow> bool" for opts pw where
  initial: "reachable opts pw (new_Connection l opts pw)"
| after: "reachable opts pw c \<Longrightarrow> reachable opts pw (run s c)"


text \<open>Reading the getter \<open>sequence\<close> \<open>n\<close> times in a row.\<close>

fun sequence_reads :: "nat \<Rightarrow> Connection \<Rightarrow> int list" where
  "sequence_reads 0 c = []"
| "sequence_reads (Suc n) c = (case sequence_get c of (s, c') \<Rightarrow> s # sequence_reads n c')"

text \<open>
  Fragment \<open>i\<close> of the multipart reply to sequence \<open>s\<close> whose parts are \<open>parts\<close>, as
  \<open>Packet.FROM\<close> decodes it, and the delivery of a list of packets to \<open>recieve\<close>.
\<close>

definition fragment :: "int \<Rightarrow> buffer list \<Rightarrow> nat \<Rightarrow> Packet" where
  "fragment s parts i =
     new_Packet Command Split
       (no_attributes\<lparr>sequence := Some s, total_attr := Some (length parts),
          index := Some i, part := Some (parts ! i)\<rparr>)"

fun deliver :: "Packet list \<Rightarrow> Connection \<Rightarrow> Connection" where
  "deliver [] c = c"
| "deliver (pk # pks) c = deliver pks (snd (recieve pk c))"


text \<open>
  The pending table in the states a connection goes through: an entry for a Login
  request sits in slot 0, and only while the connection is not connected.
\<close>

definition pending_ok :: "Connection \<Rightarrow> bool" where
  "pending_ok c \<longleftrightarrow>
     (\<forall>i st. js_get (packets c) i = Some st \<and> ptype (packet st) = Login
        \<longrightarrow> i = 0 \<and> \<not> info_connected c)"

section \<open>The connection of \<open>src/connection.ts\<close>\<close>

text \<open>
  The revision of the connection that \<open>src/index.ts\<close> exports.  Its pending table is
  the pair \<open>[login, [commands]]\<close>, its fragment vectors are made when the first fragment
  of a sequence arrives, and \<open>resolve\<close> itself takes the fragments.  It removes entries
  with \<open>splice\<close>.  Its packets are those of \<open>packet.ts\<close> above.
\<close>

text \<open>\<open>a.splice(start, 1)\<close>: the element at \<open>start\<close> goes and the later ones move down.\<close>

definition js_splice :: "'a js_array \<Rightarrow> int \<Rightarrow> 'a js_array" where
  "js_splice a start =
     (let k = (if start < 0 then max (int (len a) + start) 0 else start)
      in if int (len a) \<le> k then a
         else \<lparr>len = len a - 1,
               item = (\<lambda>i. if k \<le> i \<and> i + 1 < int (len a) then item a (i + 1)
                          else if k \<le> i then None
                          else item a i)\<rparr>)"

record IConnectionOptions =
  reconnect_src :: bool
  reconnectTimeout_src :: int
  keepAlive_src :: bool
  keepAliveInterval_src :: int
  timeout_src :: bool
  timeoutInterval_src :: int
  timeoutThresholded :: int
  timeoutTime :: int

definition default_options_src :: IConnectionOptions where
  "default_options_src =
     \<lparr>reconnect_src = True, reconnectTimeout_src = 500, keepAlive_src = True,
      keepAliveInterval_src = 15000, timeout_src = True, timeoutInterval_src = 1000,
      timeoutThresholded = 5, timeoutTime = 2000\<rparr>"

text \<open>
  \<open>packets_0\<close> is \<open>this.packets[0]\<close>, the Login entry, and \<open>packets_1\<close> is
  \<open>this.packets[1]\<close>, the array of Command entries.
\<close>

record Connection_src =
  listening_src :: bool
  options_src :: IConnectionOptions
  keepAlive_timer_src :: bool
  timeout_timer_src :: bool
  packets_0 :: "IPacketPromise option"
  packets_1 :: "IPacketPromise js_array"
  multipart_src :: "Packet option list js_array"
  info_password_src :: jsstring
  info_sent_src :: nat
  info_received_src :: nat
  info_sequence_src :: int
  info_connected_src :: bool
  events_src :: "event list"

definition new_Connection_src :: "bool \<Rightarrow> IConnectionOptions \<Rightarrow> jsstring \<Rightarrow> Connection_src" where
  "new_Connection_src l opts pw =
     \<lparr>listening_src = l, options_src = opts, keepAlive_timer_src = False,
      timeout_timer_src = False, packets_0 = None, packets_1 = new_Array 1,
      multipart_src = new_Array 1, info_password_src = pw, info_sent_src = 0,
      info_received_src = 0, info_sequence_src = - 1, info_connected_src = False,
      events_src = []\<rparr>"

definition emit_src :: "event \<Rightarrow> Connection_src \<Rightarrow> Connection_src" where
  "emit_src e c = c\<lparr>events_src := events_src c @ [e]\<rparr>"

definition store_src :: "IPacketPromise \<Rightarrow> Connection_src \<Rightarrow> error + Connection_src" where
  "store_src st c =
     (case ptype (packet st) of
        Login \<Rightarrow>
          if packets_0 c \<noteq> None then Inl PacketOverflow
          else Inr (c\<lparr>packets_0 := Some st\<rparr>)
      | Command \<Rightarrow>
          if js_get (packets_1 c) (sequence_of (packet st)) \<noteq> None then Inl PacketOverflow
          else Inr (c\<lparr>packets_1 := js_put (packets_1 c) (sequence_of (packet st)) (Some st)\<rparr>)
      | Message \<Rightarrow> Inl (UnknownPacketType 2))"

text \<open>The getter \<open>sequence\<close> of this revision: the counter is reset when it is above 255.\<close>

definition sequence_get_src :: "Connection_src \<Rightarrow> int \<times> Connection_src" where
  "sequence_get_src c =
     (let s = (if 255 < info_sequence_src c then - 1 else info_sequence_src c)
      in (s + 1, c\<lparr>info_sequence_src := s + 1\<rparr>))"

fun sequence_reads_src :: "nat \<Rightarrow> Connection_src \<Rightarrow> int list" where
  "sequence_reads_src 0 c = []"
| "sequence_reads_src (Suc n) c =
     (case sequence_get_src c of (s, c') \<Rightarrow> s # sequence_reads_src n c')"

text \<open>
  Modelled from the spec: the module \<open>./socket\<close> that \<open>src/connection.ts\<close> imports is not
  among the sources.  Section 4.4 of the specification describes its \<open>send\<close>: a Command
  with an unset sequence gets one from the connection; the packet is serialized and
  written to the UDP socket; when a reply is expected a pending entry is registered,
  which may fail with \<open>PacketOverflow\<close>; else the send completes at once.
\<close>

definition send_src ::
  "Packet \<Rightarrow> bool \<Rightarrow> Connection_src \<Rightarrow> (error + Packet) \<times> Connection_src" where
  "send_src pk res c =
     (let (r, c1) =
        (if ptype pk = Command \<and> sequence_of pk < 0
         then (let (n, c') = sequence_get_src c in (set_sequence n pk, c'))
         else (Inr pk, c))
      in case r of
           Inl e \<Rightarrow> (Inl e, c1)
         | Inr pk1 \<Rightarrow>
             (case serialize pk1 of
                Inl e \<Rightarrow> (Inl e, c1)
              | Inr (buffer, pk2) \<Rightarrow>
                  (let c2 = emit_src (Transmit pk2 buffer) c1
                   in if res
                      then (case store_src \<lparr>bytes = length buffer, packet = pk2\<rparr> c2 of
                              Inl e \<Rightarrow> (Inl e, c2)
                            | Inr c3 \<Rightarrow> (Inr pk2, c3))
                      else (Inr pk2, c2))))"

definition cleanup_src :: "error \<Rightarrow> Connection_src \<Rightarrow> Connection_src" where
  "cleanup_src err c =
     c\<lparr>timeout_timer_src := False, keepAlive_timer_src := False,
       events_src := events_src c
         @ (case packets_0 c of None \<Rightarrow> [] | Some st \<Rightarrow> [Reject st (Some err)])
         @ [Reject st (Some err). Some st \<leftarrow> js_values (packets_1 c)],
       info_sent_src := 0, info_received_src := 0, info_sequence_src := - 1,
       info_connected_src := False, packets_0 := None, packets_1 := new_Array 1,
       multipart_src := new_Array 1\<rparr>"

definition disconnect_src :: "error \<Rightarrow> Connection_src \<Rightarrow> Connection_src" where
  "disconnect_src reason c =
     (let c1 = emit_src (Emit_disconnected reason) (cleanup_src reason c)
      in if reconnect_src (options_src c1) \<and> reason = ServerTimeout
         then emit_src Reconnect_scheduled c1
         else c1)"

text \<open>The \<open>switch\<close> of \<open>resolve\<close>, for a packet that is not a fragment.\<close>

definition resolve_switch :: "Packet \<Rightarrow> Connection_src \<Rightarrow> bool \<times> Connection_src" where
  "resolve_switch pk c =
     (case ptype pk of
        Login \<Rightarrow>
          (let store = packets_0 c;
               c1 = c\<lparr>info_connected_src := (login (attributes pk) = Some True)\<rparr>;
               (resolved, c2) =
                 (case store of
                    None \<Rightarrow> (False, c1)
                  | Some st \<Rightarrow>
                      (True,
                       (emit_src (if info_connected_src c1
                                  then Resolve st \<lparr>r_command = None, r_data = None,
                                         r_connected = Some True, r_bytes = bytes st,
                                         r_sent = packet st, r_received = Some pk\<rparr>
                                  else Reject st (Some InvalidPassword)) c1)
                       \<lparr>packets_0 := None\<rparr>))
           in if info_connected_src c2 then (resolved, emit_src Emit_connected c2)
              else (resolved, disconnect_src InvalidPassword c2))
      | Command \<Rightarrow>
          (let store = js_get (packets_1 c) (sequence_of pk);
               (resolved, c1) =
                 (case store of
                    None \<Rightarrow> (False, c)
                  | Some st \<Rightarrow>
                      (True,
                       (emit_src (if data (attributes pk) = Some (lit ''Unknown command'')
                                  then Reject st (Some (UnknownCommand
                                                         (command (attributes (packet st)))))
                                  else Resolve st \<lparr>r_command = command (attributes (packet st)),
                                         r_data = data (attributes pk), r_connected = None,
                                         r_bytes = bytes st, r_sent = packet st,
                                         r_received = Some pk\<rparr>) c)
                       \<lparr>packets_1 := js_splice (packets_1 c) (sequence_of pk)\<rparr>))
           in (resolved, emit_src (Emit_command (data (attributes pk)) resolved pk) c1))
      | Message \<Rightarrow>
          (let c1 = emit_src (Emit_message (message (attributes pk)) pk) c
           in case send_src (new_Packet Message Reply
                              (no_attributes\<lparr>sequence := Some (sequence_of pk)\<rparr>)) False c1 of
                (Inl e, c2) \<Rightarrow> (False, emit_src (Emit_error e) c2)
              | (Inr _, c2) \<Rightarrow> (False, c2)))"

text \<open>
  The loop of \<open>resolve\<close> over a fragment vector: reading \<open>part\<close> of an empty slot, or
  the length of a missing \<open>part\<close>, raises \<open>TypeError\<close>.
\<close>

fun concat_src :: "Packet option list \<Rightarrow> buffer \<Rightarrow> error + buffer" where
  "concat_src [] buff = Inr buff"
| "concat_src (None # ps) buff = Inl TypeError"
| "concat_src (Some p # ps) buff =
     (case part (attributes p) of
        None \<Rightarrow> Inl TypeError
      | Some b \<Rightarrow> concat_src ps (buff @ b))"

text \<open>\<open>resolve\<close>.  \<open>Inl\<close> is an error that \<open>resolve\<close> raises to its caller.\<close>

definition resolve_src :: "Packet \<Rightarrow> Connection_src \<Rightarrow> (error + bool) \<times> Connection_src" where
  "resolve_src pk c =
     (if direction pk = Split then
        let s = sequence_of pk;
            mp0 = (case js_get (multipart_src c) s of None \<Rightarrow> [None] | Some v \<Rightarrow> v);
            mp1 = (case index (attributes pk) of
                     None \<Rightarrow> mp0 | Some i \<Rightarrow> list_put mp0 i pk);
            c1 = c\<lparr>multipart_src := js_put (multipart_src c) s (Some mp1)\<rparr>
        in if (case (index (attributes pk), total_attr (attributes pk)) of
                 (Some i, Some t) \<Rightarrow> i + 1 = t | _ \<Rightarrow> False)
           then
             (case concat_src mp1 [] of
                Inl err \<Rightarrow> (Inl err, c1)
              | Inr buff \<Rightarrow>
                  (case resolve_switch
                          (new_Packet Command Reply
                             (no_attributes\<lparr>data := Some (toString buff), sequence := Some s\<rparr>))
                          (c1\<lparr>multipart_src := js_splice (multipart_src c1) s\<rparr>) of
                     (r, c2) \<Rightarrow> (Inr r, c2)))
           else (Inr False, c1)
      else (case resolve_switch pk c of (r, c1) \<Rightarrow> (Inr r, c1)))"

text \<open>
  Modelled from the spec: the \<open>receive\<close> of the missing module \<open>./socket\<close>.  Section 4.4
  of the specification: the datagram is decoded, a decode failure is reported on the
  error channel of the connection, and a valid packet is handed to the connection.
\<close>

definition receive_src :: "buffer \<Rightarrow> Connection_src \<Rightarrow> Connection_src" where
  "receive_src buffer c =
     (case FROM buffer of
        Inl e \<Rightarrow> emit_src (Emit_error e) c
      | Inr pk \<Rightarrow> snd (resolve_src pk c))"

definition setup_src :: "Connection_src \<Rightarrow> Connection_src" where
  "setup_src c =
     c\<lparr>keepAlive_timer_src := (keepAlive_src (options_src c) \<or> keepAlive_timer_src c),
       timeout_timer_src := (timeout_src (options_src c) \<or> timeout_timer_src c)\<rparr>"

definition connect_src :: "Connection_src \<Rightarrow> (error + Packet) \<times> Connection_src" where
  "connect_src c =
     (if \<not> listening_src c then (Inl NoConnection, c)
      else
        let c1 = (if info_connected_src c then disconnect_src ServerDisconnect c else c);
            c2 = setup_src c1
        in send_src (new_Packet Login Request
                       (no_attributes\<lparr>password := Some (info_password_src c2)\<rparr>)) True c2)"

definition command_src ::
  "jsstring \<Rightarrow> bool \<Rightarrow> Connection_src \<Rightarrow> (error + Packet) \<times> Connection_src" where
  "command_src cmd res c =
     (if \<not> listening_src c \<or> \<not> info_connected_src c then (Inl NoConnection, c)
      else send_src (new_Packet Command Request (no_attributes\<lparr>command := Some cmd\<rparr>)) res c)"

definition kill_src :: "error \<Rightarrow> Connection_src \<Rightarrow> Connection_src" where
  "kill_src reason c = disconnect_src reason (emit_src (Emit_error reason) c)"

definition keepAlive_tick_src :: "Connection_src \<Rightarrow> Connection_src" where
  "keepAlive_tick_src c =
     (if info_connected_src c \<and> listening_src c
      then (case command_src [] True c of
              (Inl e, c1) \<Rightarrow> emit_src (Emit_error e) c1
            | (Inr _, c1) \<Rightarrow> c1)
      else c)"

text \<open>
  The callback of the timeout timer at clock value \<open>time\<close>: \<open>check\<close> on the Login
  entry, then on the slots of the array that \<open>this.packets[1]\<close> names when the loop
  starts.  \<open>disconnect\<close> makes \<open>this.packets\<close> a new pair; the loop goes on over the old
  array, which is then no longer the table (\<open>attached\<close> is false).
\<close>

definition due_src :: "int \<Rightarrow> Connection_src \<Rightarrow> Packet \<Rightarrow> bool" where
  "due_src time c pk =
     (case timestamp (attributes pk) of
        None \<Rightarrow> False
      | Some ts \<Rightarrow> int (sent_of pk) * timeoutTime (options_src c) \<le> time - ts)"

definition check_login :: "int \<Rightarrow> Connection_src \<Rightarrow> Connection_src" where
  "check_login time c =
     (case packets_0 c of
        None \<Rightarrow> c
      | Some p \<Rightarrow>
          if due_src time c (packet p) then
            (case send_src (packet p) False c of
               (Inl e, c1) \<Rightarrow> emit_src (Emit_error e) c1
             | (Inr pk', c1) \<Rightarrow> c1\<lparr>packets_0 := Some (p\<lparr>packet := pk'\<rparr>)\<rparr>)
          else if timeoutThresholded (options_src c) \<le> int (sent_of (packet p))
          then disconnect_src ServerTimeout c
          else c)"

fun check_commands ::
  "int \<Rightarrow> nat list \<Rightarrow> IPacketPromise js_array \<Rightarrow> bool \<Rightarrow> Connection_src \<Rightarrow> Connection_src" where
  "check_commands time [] a attached c = c"
| "check_commands time (i # rest) a attached c =
     (case js_get a (int i) of
        None \<Rightarrow> check_commands time rest a attached c
      | Some p \<Rightarrow>
          if due_src time c (packet p) then
            (case send_src (packet p) False c of
               (Inl e, c1) \<Rightarrow> check_commands time rest a attached (emit_src (Emit_error e) c1)
             | (Inr pk', c1) \<Rightarrow>
                 (let a' = js_put a (int i) (Some (p\<lparr>packet := pk'\<rparr>))
                  in check_commands time rest a' attached
                       (if attached then c1\<lparr>packets_1 := a'\<rparr> else c1)))
          else if timeoutThresholded (options_src c) \<le> int (sent_of (packet p))
          then check_commands time rest a False (disconnect_src ServerTimeout c)
          else check_commands time rest a attached c)"

definition tick_src :: "int \<Rightarrow> Connection_src \<Rightarrow> Connection_src" where
  "tick_src time c =
     (let c1 = check_login time c
      in check_commands time [0..<len (packets_1 c1)] (packets_1 c1) True c1)"

fun run_src :: "step \<Rightarrow> Connection_src \<Rightarrow> Connection_src" where
  "run_src Listen c = c\<lparr>listening_src := True\<rparr>"
| "run_src Connect c = snd (connect_src c)"
| "run_src (Cmd cmd res) c = snd (command_src cmd res c)"
| "run_src (Receive buffer) c = receive_src buffer c"
| "run_src (Tick time) c = tick_src time c"
| "run_src KeepAlive c = keepAlive_tick_src c"
| "run_src (Kill reason) c = kill_src reason c"

inductive reachable_src :: "IConnectionOptions \<Rightarrow> jsstring \<Rightarrow> Connection_src \<Rightarrow> bool"
  for opts pw where
  initial_src: "reachable_src opts pw (new_Connection_src l opts pw)"
| after_src: "reachable_src opts pw c \<Longrightarrow> reachable_src opts pw (run_src s c)"

fun deliver_src :: "Packet list \<Rightarrow> Connection_src \<Rightarrow> Connection_src" where
  "deliver_src [] c = c"
| "deliver_src (pk # pks) c = deliver_src pks (snd (resolve_src pk c))"

section \<open>The packet codec\<close>

subsection \<open>Checksum words and bytes\<close>

lemma length_crc32: "length (crc32 bs) = 4"
  by (simp add: crc32_def Let_def)

lemma join_le:
  "push_bit 24 (ucast (ucast (drop_bit 24 w :: 32 word) :: byte))
     OR push_bit 16 (ucast (ucast (drop_bit 16 w) :: byte))
     OR push_bit 8 (ucast (ucast (drop_bit 8 w) :: byte)) OR ucast (ucast w :: byte) = (w :: 32 word)"
proof (rule bit_word_eqI)
  fix n :: nat
  assume "n < LENGTH(32)"
  then consider "n < 8" | "8 \<le> n \<and> n < 16" | "16 \<le> n \<and> n < 24" | "24 \<le> n \<and> n < 32"
    by fastforce
  then show "bit (push_bit 24 (ucast (ucast (drop_bit 24 w :: 32 word) :: byte))
     OR push_bit 16 (ucast (ucast (drop_bit 16 w) :: byte))
     OR push_bit 8 (ucast (ucast (drop_bit 8 w) :: byte)) OR ucast (ucast w :: byte) :: 32 word) n
     = bit w n"
    by cases (auto simp add: bit_simps)
qed

lemma readInt32LE_crc32: "readInt32LE (crc32 bs) 0 = Inr (crc_value bs)"
  by (simp add: readInt32LE_def crc32_def Let_def join_le)

lemma header_BE: "toString [0x42, 0x45] = lit ''BE''"
  by (simp add: toString_def utf8_lead_def utf16_units_def lit_def)

lemma serialize_frame:
  "payload_of p = Inr payload \<Longrightarrow>
   serialize p =
     Inr (frame payload, p\<lparr>attributes := (attributes p)\<lparr>sent := Some (sent_of p + 1)\<rparr>\<rparr>)"
  apply (simp add: serialize_def bind_err_def readInt32LE_crc32 writeInt32BE_def)
  apply (simp add: frame_def crc32_def sent_of_def Let_def split: option.splits)
  done

lemma frame_checks:
  "length (frame payload) = 6 + length payload"
  "toString (slice_buf 0 2 (frame payload)) = lit ''BE''"
  "slice_buf 6 (length (frame payload)) (frame payload) = payload"
  "readInt32BE (frame payload) 2 = Inr (crc_value payload)"
     apply (simp_all add: frame_def length_crc32 slice_buf_def header_BE)
  apply (simp add: crc32_def Let_def readInt32BE_def join_le)
  done

text \<open>What the decoder makes of a framed payload of at least three bytes.\<close>

lemma FROM_frame:
  assumes "3 \<le> length payload"
  shows "FROM (frame payload) =
     (if payload ! 0 \<noteq> 0xFF then Inl (PacketError ''Packet missing 0xFF flag after checksum.'')
      else if payload ! 1 = 0 then
        Inr (new_Packet Login Reply (no_attributes\<lparr>login := Some (payload ! 2 = 1)\<rparr>))
      else if payload ! 1 = 1 then
        (if 4 < length payload \<and> payload ! 3 = 0 then
           (if length payload = 5 then Inl RangeError
            else Inr (new_Packet Command Split
                      (no_attributes\<lparr>sequence := Some (uint (payload ! 2)),
                         total_attr := Some (unat (payload ! 4)),
                         index := Some (unat (payload ! 5)),
                         part := Some (drop 6 payload)\<rparr>)))
         else Inr (new_Packet Command Reply
                      (no_attributes\<lparr>sequence := Some (uint (payload ! 2)),
                         data := Some (toString (drop 3 payload))\<rparr>)))
      else if payload ! 1 = 2 then
        Inr (new_Packet Message Reply
                    (no_attributes\<lparr>sequence := Some (uint (payload ! 2)),
                       message := Some (toString (drop 3 payload))\<rparr>))
      else Inl (UnknownPacketType (unat (payload ! 1))))"
proof -
  have len: "\<not> length (frame payload) < 9"
    using assms by (simp add: frame_checks)
  have r0: "readUInt8 payload 0 = Inr (payload ! 0)" "readUInt8 payload 1 = Inr (payload ! 1)"
    "readUInt8 payload 2 = Inr (payload ! 2)"
    using assms by (auto simp add: readUInt8_def)
  have r3: "4 < length payload \<Longrightarrow> readUInt8 payload 3 = Inr (payload ! 3)"
    "4 < length payload \<Longrightarrow> readUInt8 payload 4 = Inr (payload ! 4)"
    by (simp_all add: readUInt8_def)
  have r5: "readUInt8 payload 5 =
              (if length payload \<le> 5 then Inl RangeError else Inr (payload ! 5))"
    by (simp add: readUInt8_def)
  have s: "slice_buf 6 (length payload) payload = drop 6 payload"
    "slice_buf 3 (length payload) payload = drop 3 payload"
    by (simp_all add: slice_buf_def)
  show ?thesis
    unfolding FROM_def
    apply (simp only: len frame_checks(2,3,4) if_False Let_def readInt32LE_crc32 bind_err_def
        sum.case r0 s simp_thms)
    apply (cases "4 < length payload")
     apply (simp_all add: r3 r5)
    done
qed

lemma FROM_short:
  "length buffer < 9 \<Longrightarrow> FROM buffer = Inl (PacketError ''Packet must contain at least 9 bytes'')"
  by (simp add: FROM_def)

subsection \<open>ASCII text\<close>

lemma unat_ucast_ascii: "u < 0x80 \<Longrightarrow> unat (ucast (u :: 16 word) :: byte) = unat u"
  by (simp add: unsigned_ucast_eq take_bit_nat_eq_self word_less_nat_alt)

lemma ucast_ascii_le: "u < 0x80 \<Longrightarrow> (ucast (u :: 16 word) :: byte) \<le> 0x7F"
  by (simp add: word_le_nat_alt unat_ucast_ascii) (simp add: word_less_nat_alt)

lemma utf8_unit_ascii: "u < 0x80 \<Longrightarrow> utf8_unit u = [ucast u]"
  by (simp add: utf8_unit_def high_surrogate_def low_surrogate_def utf8_bytes_def
      word_less_nat_alt word_le_nat_alt)

lemma utf8_chars_ascii: "ascii s \<Longrightarrow> utf8_chars s = map (\<lambda>u. [ucast u]) s"
proof (induction s rule: utf8_chars.induct)
  case (3 u l us)
  then have "\<not> high_surrogate u"
    by (simp add: ascii_def high_surrogate_def word_less_nat_alt word_le_nat_alt)
  then show ?case
    using 3 by (simp add: ascii_def utf8_unit_ascii)
qed (simp_all add: ascii_def utf8_unit_ascii)

lemma write_string_ascii:
  "ascii s \<Longrightarrow>
   write_string s (length pre) (pre @ replicate (length s + n) 0) = pre @ bytes_of s @ replicate n 0"
proof -
  have "write_chars (map (\<lambda>u. [ucast u]) s) (length pre) (pre @ replicate (length s + n) 0)
        = pre @ map ucast s @ replicate n 0"
  proof (induction s arbitrary: pre)
    case Nil
    then show ?case by simp
  next
    case (Cons c cs)
    have "overwrite (pre @ replicate (length (c # cs) + n) 0) (length pre) [ucast c]
          = (pre @ [ucast c]) @ replicate (length cs + n) 0"
      by (simp add: overwrite_def)
    then show ?case
      using Cons.IH [of "pre @ [ucast c]"] by simp
  qed
  then show "ascii s \<Longrightarrow> ?thesis"
    by (simp add: write_string_def utf8_chars_ascii bytes_of_def)
qed

lemma utf8_decode_ascii: "ascii s \<Longrightarrow> utf8_decode None (map ucast s) = map unat s"
  by (induction s) (simp_all add: ascii_def utf8_lead_def ucast_ascii_le unat_ucast_ascii)

lemma toString_bytes_of: "ascii s \<Longrightarrow> toString (bytes_of s) = s"
proof -
  have "concat (map utf16_units (map unat s)) = s"
  proof (induction s)
    case (Cons u us)
    have "unat u < 65536"
      using unsigned_less [of u, where 'a = nat] by simp
    then show ?case
      using Cons by (simp add: utf16_units_def)
  qed simp
  then show "ascii s \<Longrightarrow> ?thesis"
    by (simp add: toString_def bytes_of_def utf8_decode_ascii)
qed

lemma toString_Nil: "toString [] = []"
  by (simp add: toString_def)

lemma ucast_ascii_0: "u < 0x80 \<Longrightarrow> ((ucast (u :: 16 word) :: byte) = 0) = (u = 0)"
  using unat_ucast_ascii [of u] by (simp add: word_unat_eq_iff)

lemma ucast_ascii_1: "u < 0x80 \<Longrightarrow> ((ucast (u :: 16 word) :: byte) = 1) = (u = 1)"
  using unat_ucast_ascii [of u] by (simp add: word_unat_eq_iff)

subsection \<open>Payloads of the three sendable packets\<close>

lemma payload_of_ack:
  assumes "ptype p = Message" and "sequence (attributes p) = Some s" and "0 \<le> s" and "s \<le> 255"
  shows "payload_of p = Inr [0xFF, 2, word_of_int s]"
  using assms
  by (simp add: payload_of_def alloc_def writeUInt8_def bind_err_def type_number_def
      sequence_of_def eval_nat_numeral)

lemma payload_of_command:
  assumes "ptype p = Command" and "command (attributes p) = Some cmd" and "ascii cmd"
    and "sequence (attributes p) = Some s" and "0 \<le> s" and "s \<le> 255"
  shows "payload_of p = Inr ([0xFF, 1, word_of_int s] @ bytes_of cmd)"
proof -
  have "write_string cmd (length [0xFF, 1, word_of_int s :: byte])
          ([0xFF, 1, word_of_int s] @ replicate (length cmd + 0) 0)
        = [0xFF, 1, word_of_int s] @ bytes_of cmd @ replicate 0 0"
    using \<open>ascii cmd\<close> by (rule write_string_ascii)
  then show ?thesis
    using assms
    by (simp add: payload_of_def alloc_def writeUInt8_def bind_err_def type_number_def
        sequence_of_def eval_nat_numeral)
qed

lemma payload_of_login:
  assumes "ptype p = Login" and "password (attributes p) = Some pw" and "ascii pw"
  shows "payload_of p = Inr ([0xFF, 0] @ bytes_of pw)"
proof -
  have "write_string pw (length [0xFF, 0 :: byte]) ([0xFF, 0] @ replicate (length pw + 0) 0)
        = [0xFF, 0] @ bytes_of pw @ replicate 0 0"
    using \<open>ascii pw\<close> by (rule write_string_ascii)
  then show ?thesis
    using assms
    by (simp add: payload_of_def alloc_def writeUInt8_def bind_err_def type_number_def
        eval_nat_numeral)
qed

lemma uint_byte_of_int: "0 \<le> s \<Longrightarrow> s \<le> 255 \<Longrightarrow> uint (word_of_int s :: byte) = s"
  by (simp add: uint_word_of_int take_bit_int_eq_self)

lemma FROM_ack:
  "0 \<le> s \<Longrightarrow> s \<le> 255 \<Longrightarrow> FROM (frame [0xFF, 2, word_of_int s]) =
     Inr (new_Packet Message Reply (no_attributes\<lparr>sequence := Some s, message := Some []\<rparr>))"
  by (simp add: FROM_frame uint_byte_of_int toString_Nil)

lemma FROM_command:
  assumes "0 \<le> s" and "s \<le> 255" and "cmd \<noteq> [] \<longrightarrow> hd cmd \<noteq> 0" and "ascii cmd"
  shows "FROM (frame ([0xFF, 1, word_of_int s] @ bytes_of cmd)) =
     Inr (new_Packet Command Reply (no_attributes\<lparr>sequence := Some s, data := Some cmd\<rparr>))"
proof -
  define P where "P = [0xFF, 1, word_of_int s :: byte] @ bytes_of cmd"
  have l: "3 \<le> length P" and p: "P ! 0 = 0xFF" "P ! Suc 0 = 1" "P ! 2 = word_of_int s"
    and d: "drop 3 P = bytes_of cmd"
    by (simp_all add: P_def)
  have "bytes_of cmd \<noteq> [] \<Longrightarrow> hd (bytes_of cmd) \<noteq> 0"
    using assms(3,4) by (cases cmd) (auto simp add: bytes_of_def ascii_def ucast_ascii_0)
  then have c: "(4 < length P \<and> P ! 3 = 0) = False"
    unfolding P_def by (cases "bytes_of cmd") auto
  have "FROM (frame P) =
     Inr (new_Packet Command Reply (no_attributes\<lparr>sequence := Some s, data := Some cmd\<rparr>))"
    using assms(1,2,4)
    by (simp add: FROM_frame [OF l] p d c uint_byte_of_int toString_bytes_of)
  then show ?thesis
    by (simp only: P_def)
qed

lemma FROM_login:
  assumes "pw \<noteq> []" and "ascii pw"
  shows "FROM (frame ([0xFF, 0] @ bytes_of pw)) =
     Inr (new_Packet Login Reply (no_attributes\<lparr>login := Some (hd pw = 1)\<rparr>))"
proof -
  obtain c cs where pw: "pw = c # cs"
    using assms by (cases pw) auto
  show ?thesis
    using assms(2) by (simp add: FROM_frame pw bytes_of_def ascii_def ucast_ascii_1)
qed

subsection \<open>Two datagrams with their checksums\<close>

lemma crc_login_test: "crc_value [0xFF, 0x00, 0x74, 0x65, 0x73, 0x74] = 0xAC3DAB7F"
  by code_simp

lemma crc_cut_fragment: "crc_value [0xFF, 0x01, 0x00, 0x00, 0x02] = 0x5AF436D8"
  by code_simp

lemma frame_login_test:
  "frame [0xFF, 0x00, 0x74, 0x65, 0x73, 0x74] =
     [0x42, 0x45, 0xAC, 0x3D, 0xAB, 0x7F, 0xFF, 0x00, 0x74, 0x65, 0x73, 0x74]"
  by (simp add: frame_def crc32_def crc_login_test)

lemma frame_cut_fragment:
  "frame [0xFF, 0x01, 0x00, 0x00, 0x02] =
     [0x42, 0x45, 0x5A, 0xF4, 0x36, 0xD8, 0xFF, 0x01, 0x00, 0x00, 0x02]"
  by (simp add: frame_def crc32_def crc_cut_fragment)

lemma ascii_lit_test: "ascii (lit ''test'')"
  by (simp add: ascii_def lit_def)

lemma bytes_of_test: "bytes_of (lit ''test'') = [0x74, 0x65, 0x73, 0x74]"
  by (simp add: bytes_of_def lit_def)

subsection \<open>Claims about the codec\<close>

lemma FROM_login_test:
  "FROM [0x42, 0x45, 0xAC, 0x3D, 0xAB, 0x7F, 0xFF, 0x00, 0x74, 0x65, 0x73, 0x74] =
     Inr (new_Packet Login Reply (no_attributes\<lparr>login := Some False\<rparr>))"
  using FROM_frame [of "[0xFF, 0x00, 0x74, 0x65, 0x73, 0x74]"] by (simp add: frame_login_test)

text \<open>
  C1, as the specification states it: decoding the encoding of a sendable packet gives the
  packet back, in type, direction and payload fields.  The Login Request with password
  \<open>test\<close> is encoded and the encoding decodes, but to a Login Reply that carries the flag
  \<open>login = false\<close> and no password.
\<close>

theorem roundtrip_counterexample:
  "serialize (new_Packet Login Request (no_attributes\<lparr>password := Some (lit ''test'')\<rparr>)) =
     Inr ([0x42, 0x45, 0xAC, 0x3D, 0xAB, 0x7F, 0xFF, 0x00, 0x74, 0x65, 0x73, 0x74],
          new_Packet Login Request
            (no_attributes\<lparr>password := Some (lit ''test''), sent := Some 1\<rparr>)) \<and>
   FROM [0x42, 0x45, 0xAC, 0x3D, 0xAB, 0x7F, 0xFF, 0x00, 0x74, 0x65, 0x73, 0x74] =
     Inr (new_Packet Login Reply (no_attributes\<lparr>login := Some False\<rparr>)) \<and>
   direction (new_Packet Login Reply (no_attributes\<lparr>login := Some False\<rparr>)) \<noteq>
     direction (new_Packet Login Request (no_attributes\<lparr>password := Some (lit ''test'')\<rparr>)) \<and>
   password (attributes (new_Packet Login Reply (no_attributes\<lparr>login := Some False\<rparr>))) \<noteq>
     password (attributes (new_Packet Login Request
                             (no_attributes\<lparr>password := Some (lit ''test'')\<rparr>)))"
proof -
  let ?p = "new_Packet Login Request (no_attributes\<lparr>password := Some (lit ''test'')\<rparr>)"
  have "payload_of ?p = Inr ([0xFF, 0] @ bytes_of (lit ''test''))"
    by (rule payload_of_login) (simp_all add: new_Packet_def no_attributes_def ascii_lit_test)
  then have "payload_of ?p = Inr [0xFF, 0x00, 0x74, 0x65, 0x73, 0x74]"
    by (simp add: bytes_of_test)
  then have s: "serialize ?p = Inr (frame [0xFF, 0x00, 0x74, 0x65, 0x73, 0x74],
                  ?p\<lparr>attributes := (attributes ?p)\<lparr>sent := Some (sent_of ?p + 1)\<rparr>\<rparr>)"
    by (rule serialize_frame)
  show ?thesis
    using s FROM_login_test
    by (simp add: frame_login_test new_Packet_def no_attributes_def sent_of_def)
qed

text \<open>
  C1, amended.  With ASCII text: the Message-Reply ack with a sequence in 0..255 decodes
  to a Message Reply with that sequence (and an empty \<open>message\<close>); a Command Request with
  a sequence in 0..255 whose command does not begin with a NUL character decodes to a
  Command Reply with that sequence and the command text as \<open>data\<close>; a Login Request with
  a non-empty password decodes to a Login Reply whose only field is \<open>login\<close>, true exactly
  when the password begins with the character 0x01.  And whatever buffer the decoder
  accepts, the packet it returns is not a Request and has no \<open>password\<close> and no \<open>command\<close>.
\<close>

theorem roundtrip_amended:
  "(ptype p = Message \<and> direction p = Reply \<and> sequence (attributes p) = Some s \<and>
      0 \<le> s \<and> s \<le> 255 \<longrightarrow>
      (\<exists>buf p'. serialize p = Inr (buf, p') \<and>
         FROM buf = Inr (new_Packet Message Reply
                          (no_attributes\<lparr>sequence := Some s, message := Some []\<rparr>)))) \<and>
   (ptype p = Command \<and> direction p = Request \<and> command (attributes p) = Some cmd \<and>
      ascii cmd \<and> (cmd \<noteq> [] \<longrightarrow> hd cmd \<noteq> 0) \<and>
      sequence (attributes p) = Some s \<and> 0 \<le> s \<and> s \<le> 255 \<longrightarrow>
      (\<exists>buf p'. serialize p = Inr (buf, p') \<and>
         FROM buf = Inr (new_Packet Command Reply
                          (no_attributes\<lparr>sequence := Some s, data := Some cmd\<rparr>)))) \<and>
   (ptype p = Login \<and> direction p = Request \<and> password (attributes p) = Some pw \<and>
      ascii pw \<and> pw \<noteq> [] \<longrightarrow>
      (\<exists>buf p'. serialize p = Inr (buf, p') \<and>
         FROM buf = Inr (new_Packet Login Reply
                          (no_attributes\<lparr>login := Some (hd pw = 1)\<rparr>)))) \<and>
   (FROM buffer = Inr q \<longrightarrow>
      direction q \<noteq> Request \<and> password (attributes q) = None \<and>
      command (attributes q) = None)"
proof (intro conjI impI)
  assume "ptype p = Message \<and> direction p = Reply \<and> sequence (attributes p) = Some s \<and>
      0 \<le> s \<and> s \<le> 255"
  then show "\<exists>buf p'. serialize p = Inr (buf, p') \<and>
         FROM buf = Inr (new_Packet Message Reply
                          (no_attributes\<lparr>sequence := Some s, message := Some []\<rparr>))"
    using serialize_frame [OF payload_of_ack, of p s] FROM_ack [of s] by simp
next
  assume a: "ptype p = Command \<and> direction p = Request \<and> command (attributes p) = Some cmd \<and>
      ascii cmd \<and> (cmd \<noteq> [] \<longrightarrow> hd cmd \<noteq> 0) \<and>
      sequence (attributes p) = Some s \<and> 0 \<le> s \<and> s \<le> 255"
  then have "payload_of p = Inr ([0xFF, 1, word_of_int s] @ bytes_of cmd)"
    by (intro payload_of_command) simp_all
  then show "\<exists>buf p'. serialize p = Inr (buf, p') \<and>
         FROM buf = Inr (new_Packet Command Reply
                          (no_attributes\<lparr>sequence := Some s, data := Some cmd\<rparr>))"
    using a serialize_frame [of p] FROM_command [of s cmd] by simp
next
  assume a: "ptype p = Login \<and> direction p = Request \<and> password (attributes p) = Some pw \<and>
      ascii pw \<and> pw \<noteq> []"
  then have "payload_of p = Inr ([0xFF, 0] @ bytes_of pw)"
    by (intro payload_of_login) simp_all
  then show "\<exists>buf p'. serialize p = Inr (buf, p') \<and>
         FROM buf = Inr (new_Packet Login Reply
                          (no_attributes\<lparr>login := Some (hd pw = 1)\<rparr>))"
    using a serialize_frame [of p] FROM_login [of pw] by simp
next
  assume "FROM buffer = Inr q"
  then have "direction q \<noteq> Request \<and> password (attributes q) = None \<and>
      command (attributes q) = None"
    apply (simp add: FROM_def bind_err_def Let_def split: if_splits sum.splits)
                   apply (auto simp add: new_Packet_def no_attributes_def split: if_splits)
    done
  then show "direction q \<noteq> Request" "password (attributes q) = None"
    "command (attributes q) = None"
    by simp_all
qed

theorem roundtrip_amended_witness:
  "ascii (lit ''players'') \<and> ascii (lit ''test'') \<and>
   (\<exists>buf p'. serialize (new_Packet Message Reply (no_attributes\<lparr>sequence := Some 7\<rparr>)) =
        Inr (buf, p') \<and>
      FROM buf = Inr (new_Packet Message Reply
                       (no_attributes\<lparr>sequence := Some 7, message := Some []\<rparr>))) \<and>
   (\<exists>buf p'. serialize (new_Packet Command Request
                          (no_attributes\<lparr>command := Some (lit ''players''),
                             sequence := Some 0\<rparr>)) =
        Inr (buf, p') \<and>
      FROM buf = Inr (new_Packet Command Reply
                       (no_attributes\<lparr>sequence := Some 0, data := Some (lit ''players'')\<rparr>))) \<and>
   (\<exists>buf p'. serialize (new_Packet Login Request
                          (no_attributes\<lparr>password := Some (lit ''test'')\<rparr>)) =
        Inr (buf, p') \<and>
      FROM buf = Inr (new_Packet Login Reply (no_attributes\<lparr>login := Some False\<rparr>))) \<and>
   FROM [0x42, 0x45, 0xAC, 0x3D, 0xAB, 0x7F, 0xFF, 0x00, 0x74, 0x65, 0x73, 0x74] =
     Inr (new_Packet Login Reply (no_attributes\<lparr>login := Some False\<rparr>)) \<and>
   direction (new_Packet Login Reply (no_attributes\<lparr>login := Some False\<rparr>)) \<noteq> Request \<and>
   password (attributes (new_Packet Login Reply (no_attributes\<lparr>login := Some False\<rparr>))) = None \<and>
   command (attributes (new_Packet Login Reply (no_attributes\<lparr>login := Some False\<rparr>))) = None"
  using roundtrip_amended
      [of "new_Packet Message Reply (no_attributes\<lparr>sequence := Some 7\<rparr>)" 7 "[]" "[]"
          "[0x42, 0x45, 0xAC, 0x3D, 0xAB, 0x7F, 0xFF, 0x00, 0x74, 0x65, 0x73, 0x74]"
          "new_Packet Login Reply (no_attributes\<lparr>login := Some False\<rparr>)"]
    roundtrip_amended
      [of "new_Packet Command Request
             (no_attributes\<lparr>command := Some (lit ''players''), sequence := Some 0\<rparr>)"
          0 "lit ''players''" "[]"]
    roundtrip_amended
      [of "new_Packet Login Request (no_attributes\<lparr>password := Some (lit ''test'')\<rparr>)"
          0 "[]" "lit ''test''"]
    FROM_login_test
  by (simp add: new_Packet_def no_attributes_def ascii_def lit_def)

text \<open>
  C8 at the datagram \<open>42 45 5A F4 36 D8 FF 01 00 00 02\<close>: eleven bytes, header text and
  checksum right, flag byte 0xFF, type Command, a zero after the sequence byte.  The
  decoder reads the \<open>index\<close> byte at payload offset 5, one past the end, and fails with
  \<open>RangeError\<close>.
\<close>

theorem truncated_fragment_header:
  "FROM [0x42, 0x45, 0x5A, 0xF4, 0x36, 0xD8, 0xFF, 0x01, 0x00, 0x00, 0x02] = Inl RangeError"
  using FROM_frame [of "[0xFF, 0x01, 0x00, 0x00, 0x02]"] by (simp add: frame_cut_fragment)

text \<open>
  C9: a decoded packet is never a Request; it is a Split exactly when it is a Command
  whose payload has more than four bytes and a zero at offset 3.
\<close>

theorem decoded_direction:
  assumes "FROM buffer = Inr p"
  shows "direction p \<noteq> Request \<and>
         (direction p = Split \<longleftrightarrow>
            ptype p = Command \<and> 4 < length (drop 6 buffer) \<and> drop 6 buffer ! 3 = 0)"
  using assms
  apply (simp add: FROM_def bind_err_def Let_def split: if_splits sum.splits)
                 apply (auto simp add: new_Packet_def slice_buf_def readUInt8_def split: if_splits)
  done

theorem decoded_direction_witness:
  "FROM (frame [0xFF, 1, 7, 0, 2, 0, 0x68, 0x69]) =
     Inr (new_Packet Command Split
            (no_attributes\<lparr>sequence := Some 7, total_attr := Some 2, index := Some 0,
               part := Some [0x68, 0x69]\<rparr>)) \<and>
   direction (new_Packet Command Split
            (no_attributes\<lparr>sequence := Some 7, total_attr := Some 2, index := Some 0,
               part := Some [0x68, 0x69]\<rparr>)) \<noteq> Request"
proof -
  have h: "FROM (frame [0xFF, 1, 7, 0, 2, 0, 0x68, 0x69]) =
     Inr (new_Packet Command Split
            (no_attributes\<lparr>sequence := Some 7, total_attr := Some 2, index := Some 0,
               part := Some [0x68, 0x69]\<rparr>))"
    by (simp add: FROM_frame)
  show ?thesis using h decoded_direction [OF h] by simp
qed

text \<open>
  C10: a Login Request with the empty password serializes to eight bytes, which the
  decoder rejects as too short.
\<close>

theorem empty_password:
  assumes "ptype p = Login" and "password (attributes p) = Some []"
  shows "\<exists>buf p'. serialize p = Inr (buf, p') \<and> length buf = 8 \<and>
           FROM buf = Inl (PacketError ''Packet must contain at least 9 bytes'')"
proof -
  have "payload_of p = Inr [0xFF, 0]"
    using assms
    by (simp add: payload_of_def alloc_def writeUInt8_def bind_err_def type_number_def
        write_string_def eval_nat_numeral)
  then have "serialize p =
      Inr (frame [0xFF, 0], p\<lparr>attributes := (attributes p)\<lparr>sent := Some (sent_of p + 1)\<rparr>\<rparr>)"
    by (rule serialize_frame)
  moreover have "length (frame [0xFF, 0]) = 8"
    by (simp add: frame_checks)
  ultimately show ?thesis
    by (simp add: FROM_short)
qed

theorem empty_password_witness:
  "\<exists>buf p'. serialize (new_Packet Login Request (no_attributes\<lparr>password := Some []\<rparr>)) =
       Inr (buf, p') \<and>
     length buf = 8 \<and> FROM buf = Inl (PacketError ''Packet must contain at least 9 bytes'')"
  using empty_password [of "new_Packet Login Request (no_attributes\<lparr>password := Some []\<rparr>)"]
  by (simp add: new_Packet_def no_attributes_def)

section \<open>Sequence numbers and the pending table\<close>

lemma sequence_reads_from:
  "info_sequence c = int k - 1 \<Longrightarrow> k \<le> 256 \<Longrightarrow>
   sequence_reads n c = map (\<lambda>i. int ((k + i) mod 256)) [0..<n]"
proof (induction n arbitrary: c k)
  case 0
  then show ?case by simp
next
  case (Suc n)
  show ?case
  proof (cases "k = 256")
    case True
    let ?c' = "c\<lparr>info_sequence := 0\<rparr>"
    have g: "sequence_get c = (0, ?c')"
      using Suc.prems True by (simp add: sequence_get_def)
    have "sequence_reads n ?c' = map (\<lambda>i. int ((1 + i) mod 256)) [0..<n]"
      by (rule Suc.IH) simp_all
    then show ?thesis
      using True by (simp add: g map_upt_Suc del: upt_Suc)
  next
    case False
    then have k: "k < 256" using Suc.prems by simp
    let ?c' = "c\<lparr>info_sequence := int k\<rparr>"
    have g: "sequence_get c = (int k, ?c')"
      using Suc.prems k by (simp add: sequence_get_def)
    have "sequence_reads n ?c' = map (\<lambda>i. int ((Suc k + i) mod 256)) [0..<n]"
      using k by (intro Suc.IH) simp_all
    then show ?thesis
      using k by (simp add: g map_upt_Suc del: upt_Suc)
  qed
qed

lemma sequence_wrap_lib:
  "sequence_reads n (new_Connection l opts pw) = map (\<lambda>i. int (i mod 256)) [0..<n] \<and>
   sequence_reads n (cleanup err c) = map (\<lambda>i. int (i mod 256)) [0..<n]"
  using sequence_reads_from [of "new_Connection l opts pw" 0 n]
    sequence_reads_from [of "cleanup err c" 0 n]
  by (simp add: new_Connection_def cleanup_def)

lemma sequence_reads_src_from:
  "info_sequence_src c = int k - 1 \<Longrightarrow> k + n \<le> 257 \<Longrightarrow>
   sequence_reads_src n c = map (\<lambda>i. int (k + i)) [0..<n]"
proof (induction n arbitrary: c k)
  case 0
  then show ?case by simp
next
  case (Suc n)
  let ?c' = "c\<lparr>info_sequence_src := int k\<rparr>"
  have g: "sequence_get_src c = (int k, ?c')"
    using Suc.prems by (simp add: sequence_get_src_def)
  have "sequence_reads_src n ?c' = map (\<lambda>i. int (Suc k + i)) [0..<n]"
    using Suc.prems by (intro Suc.IH) simp_all
  then show ?case
    by (simp add: g map_upt_Suc del: upt_Suc)
qed

text \<open>
  C4 on the connection of \<open>src/connection.ts\<close>: its getter resets the counter only when
  it is above 255, so the reads on a new connection (and after \<open>cleanup\<close>) are
  \<open>0, 1, ..., 255, 256\<close>: the 257th read gives 256, not 0.  The packet refuses that
  value as a sequence.  The getter of \<open>lib/connection.ts\<close> resets at 255 and wraps.
\<close>

theorem sequence_read_257:
  "sequence_reads_src 257 (new_Connection_src l opts pw) = map int [0..<257] \<and>
   sequence_reads_src 257 (cleanup_src err c) = map int [0..<257] \<and>
   sequence_reads_src 257 (new_Connection_src l opts pw) ! 256 = 256 \<and>
   set_sequence (sequence_reads_src 257 (new_Connection_src l opts pw) ! 256) pk =
     Inl (InvalidSequence 256)"
proof -
  have a: "sequence_reads_src 257 (new_Connection_src l opts pw) = map int [0..<257]"
    using sequence_reads_src_from [of "new_Connection_src l opts pw" 0 257]
    by (simp add: new_Connection_src_def)
  have b: "sequence_reads_src 257 (cleanup_src err c) = map int [0..<257]"
    using sequence_reads_src_from [of "cleanup_src err c" 0 257]
    by (simp add: cleanup_src_def)
  have c: "map int [0..<257] ! 256 = 256"
    using nth_map_upt [of 256 257 0 int] by simp
  show ?thesis
    by (simp add: a b c set_sequence_def)
qed

section \<open>What the operations keep\<close>

lemma serialize_ptype:
  "serialize pk = Inr (buf, pk') \<Longrightarrow> ptype pk' = ptype pk"
  by (auto simp add: serialize_def bind_err_def split: sum.splits)

lemma set_sequence_ptype:
  "set_sequence n pk = Inr pk' \<Longrightarrow> ptype pk' = ptype pk"
  by (auto simp add: set_sequence_def split: if_splits)

lemma emit_fields [simp]:
  "info_connected (emit e c) = info_connected c"
  "packets (emit e c) = packets c"
  "multipart (emit e c) = multipart c"
  "options (emit e c) = options c"
  "listening (emit e c) = listening c"
  "lastPacket (emit e c) = lastPacket c"
  by (simp_all add: emit_def)

lemma sequence_get_fields [simp]:
  "info_connected (snd (sequence_get c)) = info_connected c"
  "packets (snd (sequence_get c)) = packets c"
  "multipart (snd (sequence_get c)) = multipart c"
  "options (snd (sequence_get c)) = options c"
  "listening (snd (sequence_get c)) = listening c"
  "lastPacket (snd (sequence_get c)) = lastPacket c"
  by (simp_all add: sequence_get_def Let_def)

lemma store_fields:
  assumes "store st c = Inr c'"
  shows "info_connected c' = info_connected c" "multipart c' = multipart c"
    "options c' = options c" "listening c' = listening c" "lastPacket c' = lastPacket c"
  using assms by (auto simp add: store_def split: PacketType.splits if_splits)

lemma send_connected [simp]: "info_connected (snd (send pk res c)) = info_connected c"
  by (simp add: send_def Let_def case_prod_beta store_fields split: sum.splits)

lemma send_False_packets [simp]: "packets (snd (send pk False c)) = packets c"
  by (simp add: send_def Let_def case_prod_beta split: sum.splits)


lemma js_get_put [simp]: "js_get (js_put a k v) i = (if i = k then v else js_get a i)"
  by (simp add: js_get_def js_put_def)

lemma js_get_new [simp]: "js_get (new_Array n) i = None"
  by (simp add: js_get_def new_Array_def)

lemma pending_ok_cong:
  "packets c' = packets c \<Longrightarrow> info_connected c' = info_connected c \<Longrightarrow>
   pending_ok c' = pending_ok c"
  by (simp add: pending_ok_def)

lemma pending_ok_emit [simp]: "pending_ok (emit e c) = pending_ok c"
  by (simp add: pending_ok_def)

lemma pending_ok_sequence_get [simp]: "pending_ok (snd (sequence_get c)) = pending_ok c"
  by (simp add: pending_ok_def)

lemma store_packets:
  "store st c = Inr c' \<Longrightarrow>
   packets c' = js_put (packets c) (if ptype (packet st) = Login then 0 else sequence_of (packet st))
                  (Some st) \<and> ptype (packet st) \<noteq> Message"
  by (cases "ptype (packet st)") (auto simp add: store_def split: if_splits)

lemma pending_ok_store:
  assumes "store st c = Inr c'" and "pending_ok c"
    and "ptype (packet st) = Login \<longrightarrow> \<not> info_connected c"
  shows "pending_ok c'"
proof -
  define k where "k = (if ptype (packet st) = Login then 0 else sequence_of (packet st))"
  have p: "packets c' = js_put (packets c) k (Some st)"
    using store_packets [OF assms(1)] by (simp add: k_def)
  have q: "info_connected c' = info_connected c"
    using assms(1) by (rule store_fields)
  show ?thesis
    unfolding pending_ok_def
  proof (intro allI impI)
    fix i st'
    assume a: "js_get (packets c') i = Some st' \<and> ptype (packet st') = Login"
    show "i = 0 \<and> \<not> info_connected c'"
    proof (cases "i = k")
      case True
      then have "st' = st"
        using a by (simp add: p)
      then show ?thesis
        using a assms(3) True by (simp add: k_def q)
    next
      case False
      then have "js_get (packets c) i = Some st'"
        using a by (simp add: p)
      then show ?thesis
        using a assms(2) unfolding pending_ok_def q by blast
    qed
  qed
qed



lemma send_rule:
  assumes "P c"
    and "\<And>c. P c \<Longrightarrow> P (snd (sequence_get c))"
    and "\<And>c e. P c \<Longrightarrow> P (emit e c)"
    and "\<And>c st c'. P c \<Longrightarrow> store st c = Inr c' \<Longrightarrow> ptype (packet st) = ptype pk \<Longrightarrow> P c'"
  shows "P (snd (send pk res c))"
proof -
  define phase where "phase = (\<lambda>r c1.
      (case r of
         Inl e \<Rightarrow> (Inl e, c1)
       | Inr pk1 \<Rightarrow>
           (case serialize pk1 of
              Inl e \<Rightarrow> (Inl e, c1)
            | Inr (buffer, pk2) \<Rightarrow>
                if res
                then (case store \<lparr>bytes = length buffer, packet = pk2\<rparr> (emit (Transmit pk2 buffer) c1) of
                        Inl e \<Rightarrow> (Inl e :: error + Packet, emit (Transmit pk2 buffer) c1)
                      | Inr c3 \<Rightarrow> (Inr pk2, c3))
                else (Inr pk2, emit (Transmit pk2 buffer) c1))))"
  have phase: "P (snd (phase r c1))" if c1: "P c1" and r: "\<And>pk1. r = Inr pk1 \<Longrightarrow> ptype pk1 = ptype pk"
    for r c1
  proof (cases r)
    case (Inl e)
    then show ?thesis using c1 by (simp add: phase_def)
  next
    case (Inr pk1)
    show ?thesis
    proof (cases "serialize pk1")
      case (Inl e)
      then show ?thesis using c1 Inr by (simp add: phase_def)
    next
      case ser: (Inr bp)
      obtain buffer pk2 where bp: "bp = (buffer, pk2)"
        by (cases bp)
      have "ptype pk2 = ptype pk1"
        using ser bp by (simp add: serialize_ptype)
      then have t2: "ptype pk2 = ptype pk"
        using r [OF Inr] by simp
      have c2: "P (emit (Transmit pk2 buffer) c1)"
        using c1 by (rule assms(3))
      show ?thesis
      proof (cases "store \<lparr>bytes = length buffer, packet = pk2\<rparr> (emit (Transmit pk2 buffer) c1)")
        case (Inl e)
        then show ?thesis
          using c2 Inr ser bp by (simp add: phase_def)
      next
        case st: (Inr c3)
        have "P c3"
          using c2 st by (rule assms(4)) (simp add: t2)
        then show ?thesis
          using c2 Inr ser bp st by (simp add: phase_def)
      qed
    qed
  qed
  show ?thesis
  proof (cases "ptype pk = Command \<and> sequence_of pk < 0")
    case True
    then have "send pk res c = phase (set_sequence (fst (sequence_get c)) pk) (snd (sequence_get c))"
      by (simp add: send_def phase_def Let_def case_prod_beta cong: sum.case_cong)
    moreover have "P (snd (phase (set_sequence (fst (sequence_get c)) pk) (snd (sequence_get c))))"
      using assms(1,2) by (intro phase) (auto dest: set_sequence_ptype)
    ultimately show ?thesis by simp
  next
    case False
    then have "send pk res c = phase (Inr pk) c"
      by (simp add: send_def phase_def Let_def case_prod_beta if_not_P [OF False] cong: sum.case_cong)
    moreover have "P (snd (phase (Inr pk) c))"
      using assms(1) by (intro phase) auto
    ultimately show ?thesis by simp
  qed
qed




lemma pending_ok_send:
  assumes "pending_ok c" and "ptype pk = Login \<longrightarrow> \<not> info_connected c"
  shows "pending_ok (snd (send pk res c))"
proof -
  have "pending_ok (snd (send pk res c)) \<and> info_connected (snd (send pk res c)) = info_connected c"
  proof (rule send_rule [where P = "\<lambda>x. pending_ok x \<and> info_connected x = info_connected c"])
    show "pending_ok c \<and> info_connected c = info_connected c"
      using assms(1) by simp
  next
    fix x st x'
    assume "pending_ok x \<and> info_connected x = info_connected c" and "store st x = Inr x'"
      and "ptype (packet st) = ptype pk"
    then show "pending_ok x' \<and> info_connected x' = info_connected c"
      using assms(2) pending_ok_store [of st x x'] store_fields(1) [of st x x'] by simp
  qed simp_all
  then show ?thesis ..
qed

lemma cleanup_fields [simp]:
  "info_connected (cleanup e c) = False"
  "packets (cleanup e c) = new_Array 255"
  "options (cleanup e c) = options c"
  "listening (cleanup e c) = listening c"
  by (simp_all add: cleanup_def)

lemma disconnect_fields [simp]:
  "info_connected (disconnect e c) = False"
  "packets (disconnect e c) = new_Array 255"
  "options (disconnect e c) = options c"
  "listening (disconnect e c) = listening c"
  by (simp_all add: disconnect_def Let_def)

lemma pending_ok_disconnect [simp]: "pending_ok (disconnect e c)"
  by (simp add: pending_ok_def)


lemma pending_ok_remove:
  assumes "pending_ok c" and "packets c' = js_put (packets c) k None"
    and "info_connected c' = info_connected c"
  shows "pending_ok c'"
  unfolding pending_ok_def
proof (intro allI impI)
  fix i st
  assume a: "js_get (packets c') i = Some st \<and> ptype (packet st) = Login"
  then have "js_get (packets c) i = Some st"
    by (cases "i = k") (simp_all add: assms(2))
  then show "i = 0 \<and> \<not> info_connected c'"
    using a assms(1) unfolding pending_ok_def assms(3) by blast
qed

lemma resolve_connected:
  "info_connected (snd (resolve pk c)) =
     (if ptype pk = Login then login (attributes pk) = Some True else info_connected c)"
proof (cases "ptype pk")
  case Login
  then show ?thesis
    by (simp add: resolve_def Let_def case_prod_beta split: option.splits)
next
  case Command
  then show ?thesis
    by (simp add: resolve_def Let_def case_prod_beta split: option.splits)
next
  case Message
  have "info_connected (snd (send pk' False c')) = info_connected c'" for pk' c'
    by simp
  then show ?thesis
    using Message
    by (simp add: resolve_def Let_def case_prod_beta split: sum.splits prod.splits)
qed


lemma resolve_pending_ok:
  assumes "pending_ok c"
  shows "pending_ok (snd (resolve pk c))"
proof (cases "ptype pk")
  case Login
  show ?thesis
  proof (cases "login (attributes pk) = Some True")
    case False
    then show ?thesis
      using Login by (simp add: resolve_def Let_def case_prod_beta split: option.splits)
  next
    case True
    have z: "js_get (packets c) i = Some st \<Longrightarrow> ptype (packet st) = Login \<Longrightarrow> i = 0" for i st
      using assms unfolding pending_ok_def by blast
    have "js_get (packets c) i = None" if "js_get (packets c) 0 = None" and "ptype (packet st) = Login"
      and "js_get (packets c) i = Some st" for i st
      using that z [of i st] by simp
    then show ?thesis
      using Login True z
      by (auto simp add: resolve_def Let_def case_prod_beta pending_ok_def split: option.splits if_splits)
  qed
next
  case Command
  have "pending_ok ((emit e c)\<lparr>packets := js_put (packets c) k None\<rparr>)" for k e
    using assms by (rule pending_ok_remove) simp_all
  then show ?thesis
    using Command assms
    by (simp add: resolve_def Let_def case_prod_beta split: option.splits)
next
  case Message
  have "pending_ok (snd (send pk' False (emit e c)))" if "ptype pk' = Message" for pk' e
    using assms that by (intro pending_ok_send) simp_all
  then show ?thesis
    using Message
    by (simp add: resolve_def Let_def case_prod_beta new_Packet_def split: sum.splits prod.splits)
qed


lemma FROM_login_flag:
  "FROM buffer = Inr pk \<Longrightarrow> ptype pk = Login \<Longrightarrow>
   direction pk = Reply \<and> (login (attributes pk) = Some True \<or> login (attributes pk) = Some False)"
  apply (simp add: FROM_def bind_err_def Let_def split: if_splits sum.splits)
                 apply (auto simp add: new_Packet_def split: if_splits)
  done


lemma ptype_error_reply [simp]: "ptype (error_reply e s) = Command"
  by (simp add: error_reply_def new_Packet_def)

lemma ptype_new_Packet [simp]: "ptype (new_Packet t d a) = t"
  by (simp add: new_Packet_def)

lemma recieve_connected:
  "info_connected (snd (recieve pk c)) =
     (if direction pk \<noteq> Split \<and> ptype pk = Login then login (attributes pk) = Some True
      else info_connected c)"
  by (simp add: recieve_def Let_def case_prod_beta resolve_connected
      split: sum.splits option.splits)


lemma send_ptype: "fst (send pk res c) = Inr pk' \<Longrightarrow> ptype pk' = ptype pk"
proof -
  assume a: "fst (send pk res c) = Inr pk'"
  define r where "r = (if ptype pk = Command \<and> sequence_of pk < 0
                        then set_sequence (fst (sequence_get c)) pk else Inr pk)"
  have r: "r = Inr pk1 \<Longrightarrow> ptype pk1 = ptype pk" for pk1
    by (auto simp add: r_def dest: set_sequence_ptype split: if_splits)
  have "\<exists>pk1 buf. r = Inr pk1 \<and> serialize pk1 = Inr (buf, pk')"
    using a unfolding r_def
    by (cases "ptype pk = Command \<and> sequence_of pk < 0")
       (auto simp add: send_def Let_def case_prod_beta split: sum.splits if_splits)
  then show ?thesis
    using r serialize_ptype by metis
qed

lemma pending_ok_fields [simp]:
  "pending_ok (c\<lparr>lastPacket := lp\<rparr>) = pending_ok c"
  "pending_ok (c\<lparr>multipart := mp\<rparr>) = pending_ok c"
  "pending_ok (c\<lparr>listening := l\<rparr>) = pending_ok c"
  "pending_ok (c\<lparr>events := ev\<rparr>) = pending_ok c"
  by (simp_all add: pending_ok_def)

lemma pending_ok_replace:
  assumes "pending_ok c" and "js_get (packets c) k = Some st"
    and "ptype (packet st') = ptype (packet st)"
    and "packets c' = js_put (packets c) k (Some st')"
    and "info_connected c' = info_connected c"
  shows "pending_ok c'"
  unfolding pending_ok_def
proof (intro allI impI)
  fix i x
  assume a: "js_get (packets c') i = Some x \<and> ptype (packet x) = Login"
  show "i = 0 \<and> \<not> info_connected c'"
  proof (cases "i = k")
    case True
    then have "x = st'"
      using a by (simp add: assms(4))
    then have "js_get (packets c) i = Some st \<and> ptype (packet st) = Login"
      using a assms(2,3) True by simp
    then show ?thesis
      using assms(1) unfolding pending_ok_def assms(5) by blast
  next
    case False
    then have "js_get (packets c) i = Some x"
      using a by (simp add: assms(4))
    then show ?thesis
      using a assms(1) unfolding pending_ok_def assms(5) by blast
  qed
qed


lemma pending_ok_send_False [simp]: "pending_ok (snd (send pk False c)) = pending_ok c"
  by (rule pending_ok_cong) simp_all

lemma recieve_pending_ok:
  assumes "pending_ok c"
  shows "pending_ok (snd (recieve pk c))"
proof -
  have leaf: "pending_ok ((snd (send (packet resend) False c1))
                \<lparr>packets := js_put tb s (Some (resend\<lparr>packet := pk'\<rparr>))\<rparr>)"
    if "pending_ok c1" and "tb = packets c1" and "js_get tb s = Some resend"
      and "fst (send (packet resend) False c1) = Inr pk'" for c1 resend s pk' tb
  proof (rule pending_ok_replace [where c = "snd (send (packet resend) False c1)" and st = resend])
    show "pending_ok (snd (send (packet resend) False c1))"
      using that(1) by simp
    show "js_get (packets (snd (send (packet resend) False c1))) s = Some resend"
      using that(2,3) by simp
    show "ptype (packet (resend\<lparr>packet := pk'\<rparr>)) = ptype (packet resend)"
      using send_ptype [OF that(4)] by simp
  qed (simp_all add: that(2))
  show ?thesis
    using assms
    by (simp add: recieve_def Let_def case_prod_beta resolve_pending_ok leaf
        split: sum.splits option.splits)
qed

lemma receive_connected:
  "info_connected (receive buffer c) =
     (case FROM buffer of
        Inl e \<Rightarrow> info_connected c
      | Inr pk \<Rightarrow> if ptype pk = Login then login (attributes pk) = Some True else info_connected c)"
  using FROM_login_flag [of buffer]
  by (auto simp add: receive_def recieve_connected split: sum.splits)

lemma receive_pending_ok: "pending_ok c \<Longrightarrow> pending_ok (receive buffer c)"
  by (simp add: receive_def recieve_pending_ok split: sum.splits)


lemma timeout_reply_login [simp]:
  "login (attributes (new_Packet t Reply (no_attributes\<lparr>error := Some e, sequence := Some n\<rparr>))) = None"
  by (simp add: new_Packet_def no_attributes_def)

text \<open>One round of the loop of the timeout callback.\<close>

lemma check_packets_step:
  assumes "pending_ok c"
  shows "\<exists>old' c'.
           (check_packets time (i # rest) old c = check_packets time rest old' c' \<or>
            check_packets time (i # rest) old c = c') \<and>
           pending_ok c' \<and>
           (info_connected c' \<longrightarrow> info_connected c) \<and>
           (old = None \<and> info_connected c \<longrightarrow> old' = None \<and> info_connected c')"
proof (cases "js_get (case old of None \<Rightarrow> packets c | Some a \<Rightarrow> a) (int i)")
  case None
  then have "check_packets time (i # rest) old c = check_packets time rest old c"
    by simp
  then show ?thesis
    using assms by blast
next
  case (Some p)
  show ?thesis
  proof (cases "due time c (packet p)")
    case True
    define c1 where "c1 = snd (send (packet p) False c)"
    have c1: "pending_ok c1" "info_connected c1 = info_connected c" "packets c1 = packets c"
      using assms by (simp_all add: c1_def)
    show ?thesis
    proof (cases "fst (send (packet p) False c)")
      case (Inl e)
      then have "check_packets time (i # rest) old c = emit (Emit_error e) c1"
        using Some True by (simp add: c1_def case_prod_beta)
      moreover have "pending_ok (emit (Emit_error e) c1)"
        "info_connected (emit (Emit_error e) c1) = info_connected c"
        using c1 by simp_all
      ultimately show ?thesis
        by (intro exI [of _ old] exI [of _ "emit (Emit_error e) c1"]) auto
    next
      case (Inr pk')
      have t: "ptype pk' = ptype (packet p)"
        using Inr by (rule send_ptype)
      show ?thesis
      proof (cases old)
        case None
        define c2 where "c2 = c1\<lparr>packets := js_put (packets c1) (int i) (Some (p\<lparr>packet := pk'\<rparr>))\<rparr>"
        have "check_packets time (i # rest) old c = check_packets time rest None c2"
          using Some True Inr None by (simp add: c1_def c2_def case_prod_beta)
        moreover have "pending_ok c2"
        proof (rule pending_ok_replace [where c = c1 and st = p])
          show "js_get (packets c1) (int i) = Some p"
            using Some None c1 by simp
        qed (simp_all add: c1 c2_def t)
        moreover have "info_connected c2 = info_connected c"
          using c1 by (simp add: c2_def)
        ultimately show ?thesis
          using None by (intro exI [of _ None] exI [of _ c2]) auto
      next
        case (Some a)
        have "check_packets time (i # rest) old c =
                check_packets time rest (Some (js_put a (int i) (Some (p\<lparr>packet := pk'\<rparr>)))) c1"
          using \<open>js_get (case old of None \<Rightarrow> packets c | Some a \<Rightarrow> a) (int i) = Some p\<close>
            True Inr Some by (simp add: c1_def case_prod_beta)
        then show ?thesis
          using c1 Some
          by (intro exI [of _ "Some (js_put a (int i) (Some (p\<lparr>packet := pk'\<rparr>)))"] exI [of _ c1]) auto
      qed
    qed
  next
    case False
    show ?thesis
    proof (cases "packetTimeoutThresholded (options c) \<le> int (sent_of (packet p))")
      case exhausted: True
      define reply where "reply = new_Packet (ptype (packet p)) Reply
                           (no_attributes\<lparr>error := Some ServerTimeout,
                              sequence := Some (sequence_of (packet p))\<rparr>)"
      define c1 where "c1 = snd (resolve reply c)"
      have p1: "pending_ok c1"
        using assms by (simp add: c1_def resolve_pending_ok)
      have k1: "info_connected c1 = (if ptype (packet p) = Login then False else info_connected c)"
        by (simp add: c1_def resolve_connected reply_def)
      show ?thesis
      proof (cases "ptype (packet p) = Login")
        case True
        have "check_packets time (i # rest) old c =
                check_packets time rest
                  (Some (case old of
                           None \<Rightarrow> (if js_get (packets c) 0 \<noteq> None
                                     then js_put (packets c) 0 None else packets c)
                         | Some a \<Rightarrow> a)) c1"
          using Some False exhausted True by (simp add: c1_def reply_def Let_def)
        moreover have "old = None \<Longrightarrow> \<not> info_connected c"
          using Some True assms unfolding pending_ok_def by auto
        ultimately show ?thesis
          using p1 k1 True
          by (intro exI [of _ "Some (case old of
                           None \<Rightarrow> (if js_get (packets c) 0 \<noteq> None
                                     then js_put (packets c) 0 None else packets c)
                         | Some a \<Rightarrow> a)"] exI [of _ c1]) auto
      next
        case notLogin: False
        have "check_packets time (i # rest) old c = check_packets time rest old c1"
          using Some False exhausted notLogin by (simp add: c1_def reply_def Let_def)
        then show ?thesis
          using p1 k1 notLogin by (intro exI [of _ old] exI [of _ c1]) auto
      qed
    next
      case notyet: False
      have "check_packets time (i # rest) old c = check_packets time rest old c"
        using Some False notyet by simp
      then show ?thesis
        using assms by blast
    qed
  qed
qed

lemma check_packets_inv:
  "pending_ok c \<Longrightarrow>
   pending_ok (check_packets time idx old c) \<and>
   (info_connected (check_packets time idx old c) \<longrightarrow> info_connected c) \<and>
   (old = None \<and> info_connected c \<longrightarrow> info_connected (check_packets time idx old c))"
proof (induction idx arbitrary: old c)
  case Nil
  then show ?case by simp
next
  case (Cons i rest)
  from check_packets_step [OF Cons.prems, of time i rest old]
  obtain old' c' where s:
    "check_packets time (i # rest) old c = check_packets time rest old' c' \<or>
     check_packets time (i # rest) old c = c'"
    "pending_ok c'" "info_connected c' \<longrightarrow> info_connected c"
    "old = None \<and> info_connected c \<longrightarrow> old' = None \<and> info_connected c'"
    by blast
  from Cons.IH [OF s(2), of old'] s show ?case
    by metis
qed

lemma tick_inv:
  assumes "pending_ok c"
  shows "pending_ok (tick time c) \<and>
         (info_connected (tick time c) \<longrightarrow> info_connected c) \<and>
         (info_connected c \<and> \<not> server_timed_out time c \<longrightarrow> info_connected (tick time c))"
  using check_packets_inv [OF assms, of time "[0..<len (packets c)]" None]
  by (simp add: tick_def)

lemma setup_timers_fields [simp]:
  "info_connected (setup_timers c) = info_connected c"
  "packets (setup_timers c) = packets c"
  "listening (setup_timers c) = listening c"
  by (simp_all add: setup_timers_def)

lemma pending_ok_setup_timers [simp]: "pending_ok (setup_timers c) = pending_ok c"
  by (simp add: pending_ok_def)

lemma connect_inv:
  assumes "pending_ok c"
  shows "pending_ok (snd (connect c)) \<and> (info_connected (snd (connect c)) \<longrightarrow> info_connected c) \<and>
         (\<not> listening c \<longrightarrow> snd (connect c) = c)"
proof (cases "listening c")
  case False
  then show ?thesis using assms by (simp add: connect_def)
next
  case True
  define c2 where "c2 = setup_timers (if info_connected c then disconnect ServerDisconnect c else c)"
  have c2: "pending_ok c2" "\<not> info_connected c2 \<or> \<not> info_connected c"
    using assms by (simp_all add: c2_def)
  have "info_connected c2 \<longrightarrow> info_connected c"
    by (simp add: c2_def)
  moreover have "\<not> info_connected c2"
    by (simp add: c2_def)
  moreover have "snd (connect c) =
      snd (send (new_Packet Login Request (no_attributes\<lparr>password := Some (info_password c2)\<rparr>)) True c2)"
    using True by (simp add: connect_def c2_def Let_def)
  ultimately show ?thesis
    using True c2(1) by (simp add: pending_ok_send)
qed

lemma command_send_inv:
  assumes "pending_ok c"
  shows "pending_ok (snd (command_send cmd res c)) \<and>
         info_connected (snd (command_send cmd res c)) = info_connected c"
  using assms by (simp add: command_send_def pending_ok_send)

lemma keepAlive_tick_inv:
  assumes "pending_ok c"
  shows "pending_ok (keepAlive_tick c) \<and> info_connected (keepAlive_tick c) = info_connected c"
  using assms command_send_inv [OF assms, of "[]" True]
  by (simp add: keepAlive_tick_def case_prod_beta split: sum.splits)

lemma kill_inv: "pending_ok (kill reason c) \<and> \<not> info_connected (kill reason c)"
  by (simp add: kill_def)

lemma run_pending_ok:
  assumes "pending_ok c"
  shows "pending_ok (run s c)"
proof (cases s)
  case Listen
  then show ?thesis using assms by simp
next
  case Connect
  then show ?thesis using connect_inv [OF assms] by simp
next
  case (Cmd cmd res)
  then show ?thesis using command_send_inv [OF assms, of cmd res] by simp
next
  case (Receive buffer)
  then show ?thesis using receive_pending_ok [OF assms, of buffer] by simp
next
  case (Tick time)
  then show ?thesis using tick_inv [OF assms, of time] by simp
next
  case KeepAlive
  then show ?thesis using keepAlive_tick_inv [OF assms] by simp
next
  case (Kill reason)
  then show ?thesis using kill_inv [of reason c] by simp
qed

lemma pending_ok_new: "pending_ok (new_Connection l opts pw)"
  by (simp add: pending_ok_def new_Connection_def)

lemma reachable_pending_ok: "reachable opts pw c \<Longrightarrow> pending_ok c"
  by (induction rule: reachable.induct) (simp_all add: pending_ok_new run_pending_ok)

section \<open>The flag \<open>connected\<close>\<close>

lemma emit_src_fields [simp]:
  "info_connected_src (emit_src e c) = info_connected_src c"
  "packets_0 (emit_src e c) = packets_0 c"
  "packets_1 (emit_src e c) = packets_1 c"
  "multipart_src (emit_src e c) = multipart_src c"
  "listening_src (emit_src e c) = listening_src c"
  "options_src (emit_src e c) = options_src c"
  by (simp_all add: emit_src_def)

lemma sequence_get_src_fields [simp]:
  "info_connected_src (snd (sequence_get_src c)) = info_connected_src c"
  "packets_0 (snd (sequence_get_src c)) = packets_0 c"
  "packets_1 (snd (sequence_get_src c)) = packets_1 c"
  "multipart_src (snd (sequence_get_src c)) = multipart_src c"
  "listening_src (snd (sequence_get_src c)) = listening_src c"
  "options_src (snd (sequence_get_src c)) = options_src c"
  by (simp_all add: sequence_get_src_def Let_def)

lemma store_src_connected:
  "store_src st c = Inr c' \<Longrightarrow> info_connected_src c' = info_connected_src c"
  by (auto simp add: store_src_def split: PacketType.splits if_splits)

lemma send_src_connected [simp]:
  "info_connected_src (snd (send_src pk res c)) = info_connected_src c"
  by (auto simp add: send_src_def Let_def case_prod_beta dest: store_src_connected
      split: sum.splits)

lemma disconnect_src_connected [simp]: "\<not> info_connected_src (disconnect_src e c)"
  by (simp add: disconnect_src_def cleanup_src_def Let_def)

lemma resolve_switch_connected:
  "info_connected_src (snd (resolve_switch pk c)) =
     (if ptype pk = Login then login (attributes pk) = Some True else info_connected_src c)"
  by (cases "ptype pk")
    (auto simp add: resolve_switch_def Let_def case_prod_beta split: option.splits sum.splits)

lemma resolve_src_connected:
  "info_connected_src (snd (resolve_src pk c)) =
     (if direction pk \<noteq> Split \<and> ptype pk = Login then login (attributes pk) = Some True
      else info_connected_src c)"
  by (simp add: resolve_src_def Let_def case_prod_beta resolve_switch_connected new_Packet_def
      split: sum.splits)

lemma receive_src_connected:
  "info_connected_src (receive_src buffer c) =
     (case FROM buffer of
        Inl e \<Rightarrow> info_connected_src c
      | Inr pk \<Rightarrow> if ptype pk = Login then login (attributes pk) = Some True
                  else info_connected_src c)"
proof (cases "FROM buffer")
  case (Inl e)
  then show ?thesis by (simp add: receive_src_def)
next
  case (Inr pk)
  then have "ptype pk = Login \<Longrightarrow> direction pk = Reply"
    using FROM_login_flag [OF Inr] by simp
  then show ?thesis
    using Inr by (auto simp add: receive_src_def resolve_src_connected)
qed

lemma connect_src_connected:
  "info_connected_src (snd (connect_src c)) \<Longrightarrow> info_connected_src c"
  by (simp add: connect_src_def Let_def setup_src_def split: if_splits)

lemma command_src_connected [simp]:
  "info_connected_src (snd (command_src cmd res c)) = info_connected_src c"
  by (simp add: command_src_def)

lemma keepAlive_tick_src_connected [simp]:
  "info_connected_src (keepAlive_tick_src c) = info_connected_src c"
  using command_src_connected [of "[]" True c]
  by (simp add: keepAlive_tick_src_def case_prod_beta split: sum.splits del: command_src_connected)

lemma kill_src_connected [simp]: "\<not> info_connected_src (kill_src reason c)"
  by (simp add: kill_src_def)

lemma check_login_connected:
  "info_connected_src (check_login time c) \<Longrightarrow> info_connected_src c"
  using send_src_connected [of "packet (the (packets_0 c))" False c]
  by (auto simp add: check_login_def case_prod_beta split: option.splits if_splits sum.splits
      simp del: send_src_connected)

lemma check_commands_connected:
  "info_connected_src (check_commands time idx a att c) \<Longrightarrow> info_connected_src c"
proof (induction idx arbitrary: a att c)
  case Nil
  then show ?case by simp
next
  case (Cons i rest)
  show ?case
  proof (cases "js_get a (int i)")
    case None
    then show ?thesis using Cons by simp
  next
    case (Some p)
    show ?thesis
    proof (cases "due_src time c (packet p)")
      case True
      obtain r c1 where s: "send_src (packet p) False c = (r, c1)"
        by (cases "send_src (packet p) False c")
      then have c1: "info_connected_src c1 = info_connected_src c"
        using send_src_connected [of "packet p" False c] by simp
      show ?thesis
      proof (cases r)
        case (Inl e)
        then have "info_connected_src (check_commands time rest a att
                 (emit_src (Emit_error e) c1))"
          using Cons.prems Some True s by simp
        then have "info_connected_src (emit_src (Emit_error e) c1)"
          by (rule Cons.IH)
        then show ?thesis using c1 by simp
      next
        case (Inr pk')
        define a' where "a' = js_put a (int i) (Some (p\<lparr>packet := pk'\<rparr>))"
        have "info_connected_src (check_commands time rest a' att
                 (if att then c1\<lparr>packets_1 := a'\<rparr> else c1))"
          using Cons.prems Some True s Inr by (cases att) (simp_all add: a'_def Let_def)
        then have "info_connected_src (if att then c1\<lparr>packets_1 := a'\<rparr> else c1)"
          by (rule Cons.IH)
        then show ?thesis using c1 by (simp split: if_splits)
      qed
    next
      case False
      show ?thesis
      proof (cases "timeoutThresholded (options_src c) \<le> int (sent_of (packet p))")
        case True
        then have "info_connected_src (check_commands time rest a False
                 (disconnect_src ServerTimeout c))"
          using Cons.prems Some False by simp
        then have "info_connected_src (disconnect_src ServerTimeout c)"
          by (rule Cons.IH)
        then show ?thesis by simp
      next
        case f: False
        then have "info_connected_src (check_commands time rest a att c)"
          using Cons.prems Some False by simp
        then show ?thesis by (rule Cons.IH)
      qed
    qed
  qed
qed

lemma tick_src_connected: "info_connected_src (tick_src time c) \<Longrightarrow> info_connected_src c"
  by (auto simp add: tick_src_def Let_def dest: check_commands_connected check_login_connected)

lemma run_src_transitions:
  "(\<not> info_connected_src d \<and> info_connected_src (run_src s d) \<longrightarrow>
      (\<exists>buffer pk. s = Receive buffer \<and> FROM buffer = Inr pk \<and> ptype pk = Login \<and>
          direction pk = Reply \<and> login (attributes pk) = Some True)) \<and>
   (info_connected_src d \<and> \<not> info_connected_src (run_src s d) \<longrightarrow>
      s = Connect \<or> (\<exists>reason. s = Kill reason) \<or> (\<exists>time. s = Tick time) \<or>
      (\<exists>buffer pk. s = Receive buffer \<and> FROM buffer = Inr pk \<and> ptype pk = Login \<and>
          direction pk = Reply \<and> login (attributes pk) = Some False))"
proof (cases s)
  case Listen
  then show ?thesis by simp
next
  case Connect
  then show ?thesis using connect_src_connected [of d] by auto
next
  case (Cmd cmd res)
  then show ?thesis by simp
next
  case (Receive buffer)
  show ?thesis
  proof (cases "FROM buffer")
    case (Inl e)
    then show ?thesis using Receive by (simp add: receive_src_connected)
  next
    case (Inr pk)
    then show ?thesis
      using Receive FROM_login_flag [OF Inr] by (auto simp add: receive_src_connected)
  qed
next
  case (Tick time)
  then show ?thesis using tick_src_connected [of time d] by auto
next
  case KeepAlive
  then show ?thesis by simp
next
  case (Kill reason)
  then show ?thesis by simp
qed

lemma FROM_login_ok:
  "FROM (frame [0xFF, 0, 1]) = Inr (new_Packet Login Reply (no_attributes\<lparr>login := Some True\<rparr>))"
  by (simp add: FROM_frame)



section \<open>Sessions\<close>

lemmas eval_defs = connect_def command_send_def send_def store_def sequence_get_def set_sequence_def
  receive_def recieve_def resolve_def disconnect_def cleanup_def emit_def setup_timers_def
  new_Connection_def default_options_def js_get_def js_put_def new_Array_def js_values_def
  sequence_of_def sent_of_def tick_def server_timed_out_def due_def kill_def keepAlive_tick_def
  Let_def

lemma serialize_login_pw:
  "serialize \<lparr>ptype = Login, direction = Request,
              attributes = no_attributes\<lparr>password := Some (lit ''pw'')\<rparr>\<rparr> =
     Inr (frame [0xFF, 0, 0x70, 0x77],
          \<lparr>ptype = Login, direction = Request,
           attributes = no_attributes\<lparr>password := Some (lit ''pw''), sent := Some 1\<rparr>\<rparr>)"
proof -
  let ?p = "\<lparr>ptype = Login, direction = Request,
             attributes = no_attributes\<lparr>password := Some (lit ''pw'')\<rparr>\<rparr>"
  have "payload_of ?p = Inr [0xFF, 0, 0x70, 0x77]"
    using payload_of_login [of ?p "lit ''pw''"]
    by (simp add: no_attributes_def ascii_def bytes_of_def lit_def)
  from serialize_frame [OF this] show ?thesis
    by (simp add: no_attributes_def sent_of_def)
qed

lemma serialize_players_0:
  "serialize \<lparr>ptype = Command, direction = Request,
              attributes = no_attributes\<lparr>command := Some (lit ''players''),
                             sequence := Some 0\<rparr>\<rparr> =
     Inr (frame [0xFF, 1, 0, 0x70, 0x6C, 0x61, 0x79, 0x65, 0x72, 0x73],
          \<lparr>ptype = Command, direction = Request,
           attributes = no_attributes\<lparr>command := Some (lit ''players''), sequence := Some 0,
                          sent := Some 1\<rparr>\<rparr>)"
proof -
  let ?p = "\<lparr>ptype = Command, direction = Request,
              attributes = no_attributes\<lparr>command := Some (lit ''players''),
                             sequence := Some 0\<rparr>\<rparr>"
  have "payload_of ?p = Inr [0xFF, 1, 0, 0x70, 0x6C, 0x61, 0x79, 0x65, 0x72, 0x73]"
    using payload_of_command [of ?p "lit ''players''" 0]
    by (simp add: no_attributes_def ascii_def bytes_of_def lit_def)
  from serialize_frame [OF this] show ?thesis
    by (simp add: no_attributes_def sent_of_def)
qed

lemma no_attributes_fields:
  "timestamp no_attributes = None" "sent no_attributes = None" "sequence no_attributes = None"
  "total_attr no_attributes = None" "index no_attributes = None" "data no_attributes = None"
  "password no_attributes = None" "command no_attributes = None" "message no_attributes = None"
  "login no_attributes = None" "part no_attributes = None" "error no_attributes = None"
  by (simp_all add: no_attributes_def)

lemma FROM_login_ok':
  "FROM (frame [0xFF, 0, 1]) =
     Inr \<lparr>ptype = Login, direction = Reply, attributes = no_attributes\<lparr>login := Some True\<rparr>\<rparr>"
  by (simp add: FROM_frame new_Packet_def)

lemmas eval_simps = eval_defs serialize_login_pw serialize_players_0 new_Packet_def frame_checks
  no_attributes_fields FROM_login_ok'

lemma check_packets_empty:
  "(\<And>i. i \<in> set idx \<Longrightarrow>
      js_get (case old of None \<Rightarrow> packets c | Some a \<Rightarrow> a) (int i) = None) \<Longrightarrow>
   check_packets time idx old c = c"
  by (induction idx) simp_all

lemma check_packets_none:
  "\<forall>i\<in>set idx. item (packets c) (int i) = None \<Longrightarrow> check_packets time idx None c = c"
  "\<forall>i\<in>set idx. item a (int i) = None \<Longrightarrow> check_packets time idx (Some a) c = c"
  by (rule check_packets_empty; simp add: js_get_def)+

lemma upt_255: "[0..<255] = 0 # [1..<255]"
  by (simp add: upt_conv_Cons)

lemma no_rejects: "concat (map (case_option [] f \<circ> (\<lambda>i. None)) xs) = []"
  by (induction xs) simp_all

lemmas eval_defs_src = connect_src_def command_src_def send_src_def store_src_def
  sequence_get_src_def set_sequence_def receive_src_def resolve_src_def resolve_switch_def
  disconnect_src_def cleanup_src_def emit_src_def setup_src_def new_Connection_src_def
  default_options_src_def js_get_def js_put_def new_Array_def js_values_def js_splice_def
  sequence_of_def sent_of_def tick_src_def check_login_def due_src_def kill_src_def
  keepAlive_tick_src_def Let_def

lemma serialize_players_0_again:
  "serialize \<lparr>ptype = Command, direction = Request,
              attributes = no_attributes\<lparr>command := Some (lit ''players''),
                             sequence := Some 0, sent := Some (Suc 0)\<rparr>\<rparr> =
     Inr (frame [0xFF, 1, 0, 0x70, 0x6C, 0x61, 0x79, 0x65, 0x72, 0x73],
          \<lparr>ptype = Command, direction = Request,
           attributes = no_attributes\<lparr>command := Some (lit ''players''), sequence := Some 0,
                          sent := Some 2\<rparr>\<rparr>)"
proof -
  let ?p = "\<lparr>ptype = Command, direction = Request,
              attributes = no_attributes\<lparr>command := Some (lit ''players''),
                             sequence := Some 0, sent := Some (Suc 0)\<rparr>\<rparr>"
  have "payload_of ?p = Inr [0xFF, 1, 0, 0x70, 0x6C, 0x61, 0x79, 0x65, 0x72, 0x73]"
    using payload_of_command [of ?p "lit ''players''" 0]
    by (simp add: no_attributes_def ascii_def bytes_of_def lit_def)
  from serialize_frame [OF this] show ?thesis
    by (simp add: no_attributes_def sent_of_def)
qed

lemmas eval_simps_src = eval_defs_src serialize_login_pw serialize_players_0 new_Packet_def
  frame_checks no_attributes_fields FROM_login_ok'

lemma serialize_sequence_of:
  "serialize pk = Inr (buf, pk') \<Longrightarrow> sequence_of pk' = sequence_of pk \<and> ptype pk' = ptype pk"
  by (auto simp add: serialize_def bind_err_def sequence_of_def split: sum.splits)



text \<open>
  C6 on the connection of \<open>lib/connection.ts\<close>, whose table is one array: the Login
  entry sits in slot 0, the slot of the Command with sequence 0.  While the Login
  request of \<open>connect\<close> is pending, sending the first Command for a reply ends in
  \<open>PacketOverflow\<close>.  And when a connected connection has a Command pending at sequence
  0, a further Login Reply from the server completes that Command's promise, with
  \<open>connected: true\<close> and no data, and takes it out of the table.
\<close>

theorem login_slot_shared:
  "js_get (packets (run Connect (new_Connection True default_options (lit ''pw'')))) 0 =
     Some \<lparr>bytes = 10,
           packet = new_Packet Login Request
                      (no_attributes\<lparr>password := Some (lit ''pw''), sent := Some 1\<rparr>)\<rparr> \<and>
   fst (send (new_Packet Command Request (no_attributes\<lparr>command := Some (lit ''players'')\<rparr>))
          True (run Connect (new_Connection True default_options (lit ''pw'')))) =
     Inl PacketOverflow \<and>
   js_get (packets (run (Cmd (lit ''players'') True) (run (Receive (frame [0xFF, 0, 1]))
             (run Connect (new_Connection True default_options (lit ''pw'')))))) 0 =
     Some \<lparr>bytes = 16,
           packet = new_Packet Command Request
                      (no_attributes\<lparr>command := Some (lit ''players''), sequence := Some 0,
                         sent := Some 1\<rparr>)\<rparr> \<and>
   events (run (Receive (frame [0xFF, 0, 1])) (run (Cmd (lit ''players'') True)
             (run (Receive (frame [0xFF, 0, 1]))
                (run Connect (new_Connection True default_options (lit ''pw'')))))) =
     events (run (Cmd (lit ''players'') True) (run (Receive (frame [0xFF, 0, 1]))
               (run Connect (new_Connection True default_options (lit ''pw''))))) @
     [Resolve
        \<lparr>bytes = 16,
         packet = new_Packet Command Request
                    (no_attributes\<lparr>command := Some (lit ''players''), sequence := Some 0,
                       sent := Some 1\<rparr>)\<rparr>
        \<lparr>r_command = None, r_data = None, r_connected = Some True, r_bytes = 16,
         r_sent = new_Packet Command Request
                    (no_attributes\<lparr>command := Some (lit ''players''), sequence := Some 0,
                       sent := Some 1\<rparr>),
         r_received = Some (new_Packet Login Reply (no_attributes\<lparr>login := Some True\<rparr>))\<rparr>,
      Emit_connected] \<and>
   js_get (packets (run (Receive (frame [0xFF, 0, 1])) (run (Cmd (lit ''players'') True)
             (run (Receive (frame [0xFF, 0, 1]))
                (run Connect (new_Connection True default_options (lit ''pw''))))))) 0 = None"
  by (simp add: eval_simps)

text \<open>
  C3 on the connection of \<open>lib/connection.ts\<close>, with \<open>packetTimeoutThresholded = 1\<close>.
  A tick finds a Command pending that was sent once: its promise is rejected with
  \<open>undefined\<close>, not with \<open>ServerTimeout\<close>.  A tick finds the Login request pending:
  its promise is rejected with \<open>InvalidPassword\<close> and the connection disconnects, both
  timers cleared.  And with the options as they are by default, no tick at any time
  re-transmits the pending Command: a packet that the connection made has no
  \<open>timestamp\<close>.
\<close>

theorem timeout_tick_completion:
  "events (run (Tick 5000) (run (Cmd (lit ''players'') True) (run (Receive (frame [0xFF, 0, 1]))
             (run Connect (new_Connection True (default_options\<lparr>packetTimeoutThresholded := 1\<rparr>)
                             (lit ''pw'')))))) =
     events (run (Cmd (lit ''players'') True) (run (Receive (frame [0xFF, 0, 1]))
               (run Connect (new_Connection True (default_options\<lparr>packetTimeoutThresholded := 1\<rparr>)
                               (lit ''pw''))))) @
     [Reject
        \<lparr>bytes = 16,
         packet = new_Packet Command Request
                    (no_attributes\<lparr>command := Some (lit ''players''), sequence := Some 0,
                       sent := Some 1\<rparr>)\<rparr>
        None] \<and>
   events (run (Tick 5000)
             (run Connect (new_Connection True (default_options\<lparr>packetTimeoutThresholded := 1\<rparr>)
                             (lit ''pw'')))) =
     events (run Connect (new_Connection True (default_options\<lparr>packetTimeoutThresholded := 1\<rparr>)
                            (lit ''pw''))) @
     [Reject
        \<lparr>bytes = 10,
         packet = new_Packet Login Request
                    (no_attributes\<lparr>password := Some (lit ''pw''), sent := Some 1\<rparr>)\<rparr>
        (Some InvalidPassword),
      Emit_disconnected InvalidPassword] \<and>
   \<not> timeout_timer (run (Tick 5000)
         (run Connect (new_Connection True (default_options\<lparr>packetTimeoutThresholded := 1\<rparr>)
                         (lit ''pw'')))) \<and>
   \<not> keepAlive_timer (run (Tick 5000)
         (run Connect (new_Connection True (default_options\<lparr>packetTimeoutThresholded := 1\<rparr>)
                         (lit ''pw'')))) \<and>
   run (Tick time) (run (Cmd (lit ''players'') True) (run (Receive (frame [0xFF, 0, 1]))
          (run Connect (new_Connection True default_options (lit ''pw''))))) =
     run (Cmd (lit ''players'') True) (run (Receive (frame [0xFF, 0, 1]))
          (run Connect (new_Connection True default_options (lit ''pw''))))"
  by (simp add: eval_simps upt_255 no_rejects check_packets_none)

end
